theory Spec2Isabelle
  imports Main "HOL-Library.Char_ord" "HOL-Library.List_Lexorder" "HOL-Library.Multiset"
begin

section \<open>Values and exceptions\<close>

text \<open>
  The program reads its input with \<^verbatim>\<open>json.load\<close>, so every raw item is a JSON value.
  Objects are association lists in the order of the file (\<^verbatim>\<open>json.load\<close> keeps one
  value per key). Numbers are integers: floating-point numbers are not part of this
  model. A \<^typ>\<open>char\<close> stands for one code point below 256, so \<^term>\<open>length\<close> counts
  what Python's \<^verbatim>\<open>len\<close> counts on such text.
\<close>

datatype json =
  JNull
  | JBool bool
  | JInt int
  | JStr string
  | JArr "json list"
  | JObj "(string \<times> json) list"

text \<open>The exceptions that can leave a function of the script.\<close>

datatype error =
  AttributeError
  | TypeError
  | PermissionError
  | IsADirectoryError
  | UnicodeDecodeError
  | JSONDecodeError
  | ValueError
  | RecursionError

text \<open>Python's truth value of a JSON value (\<^verbatim>\<open>if not x\<close>).\<close>

fun truthy :: "json \<Rightarrow> bool" where
  "truthy JNull = False"
| "truthy (JBool b) = b"
| "truthy (JInt i) = (i \<noteq> 0)"
| "truthy (JStr s) = (s \<noteq> [])"
| "truthy (JArr xs) = (xs \<noteq> [])"
| "truthy (JObj kvs) = (kvs \<noteq> [])"

text \<open>
  \<^verbatim>\<open>x.get(key, default)\<close>: only a JSON object has the method; on every other value
  the attribute lookup raises.
\<close>

fun py_get :: "json \<Rightarrow> string \<Rightarrow> json \<Rightarrow> error + json" where
  "py_get (JObj kvs) k d = Inr (case map_of kvs k of None \<Rightarrow> d | Some v \<Rightarrow> v)"
| "py_get _ k d = Inl AttributeError"

section \<open>String operations of the Python library\<close>

definition nl :: char where
  "nl = CHR 0x0A"

text \<open>\<^verbatim>\<open>str.isspace\<close> on the code points below 256.\<close>

definition isspace :: "char \<Rightarrow> bool" where
  "isspace c \<longleftrightarrow> c \<in> set [CHR 0x09, CHR 0x0A, CHR 0x0B, CHR 0x0C, CHR 0x0D,
     CHR 0x1C, CHR 0x1D, CHR 0x1E, CHR 0x1F, CHR 0x20, CHR 0x85, CHR 0xA0]"

definition lstrip :: "string \<Rightarrow> string" where
  "lstrip s = dropWhile isspace s"

definition rstrip :: "string \<Rightarrow> string" where
  "rstrip s = rev (dropWhile isspace (rev s))"

definition strip :: "string \<Rightarrow> string" where
  "strip s = lstrip (rstrip s)"

text \<open>\<^verbatim>\<open>s.split(c)\<close> for a one-character separator: never the empty list.\<close>

fun split_on :: "char \<Rightarrow> string \<Rightarrow> string list" where
  "split_on c [] = [[]]"
| "split_on c (x # xs) =
     (if x = c then [] # split_on c xs
      else (case split_on c xs of [] \<Rightarrow> [[x]] | l # ls \<Rightarrow> (x # l) # ls))"

text \<open>\<^verbatim>\<open>sep.join(lines)\<close>.\<close>

fun join :: "string \<Rightarrow> string list \<Rightarrow> string" where
  "join sep [] = []"
| "join sep [l] = l"
| "join sep (l # m # ls) = l @ sep @ join sep (m # ls)"

text \<open>\<^verbatim>\<open>s.replace(c, r)\<close> for a one-character pattern.\<close>

definition replace_char :: "char \<Rightarrow> string \<Rightarrow> string \<Rightarrow> string" where
  "replace_char c r s = concat (map (\<lambda>x. if x = c then r else [x]) s)"

text \<open>\<^verbatim>\<open>str.lower\<close> on the code points below 256: the ASCII capitals and the
  Latin-1 capitals (all of 0xC0 to 0xDE but the multiplication sign 0xD7) move up by 32.\<close>

definition upper_chars :: string where
  "upper_chars = ''ABCDEFGHIJKLMNOPQRSTUVWXYZ'' @
     [CHR 0xC0, CHR 0xC1, CHR 0xC2, CHR 0xC3, CHR 0xC4, CHR 0xC5, CHR 0xC6, CHR 0xC7,
      CHR 0xC8, CHR 0xC9, CHR 0xCA, CHR 0xCB, CHR 0xCC, CHR 0xCD, CHR 0xCE, CHR 0xCF,
      CHR 0xD0, CHR 0xD1, CHR 0xD2, CHR 0xD3, CHR 0xD4, CHR 0xD5, CHR 0xD6,
      CHR 0xD8, CHR 0xD9, CHR 0xDA, CHR 0xDB, CHR 0xDC, CHR 0xDD, CHR 0xDE]"

definition lower_chars :: string where
  "lower_chars = ''abcdefghijklmnopqrstuvwxyz'' @
     [CHR 0xE0, CHR 0xE1, CHR 0xE2, CHR 0xE3, CHR 0xE4, CHR 0xE5, CHR 0xE6, CHR 0xE7,
      CHR 0xE8, CHR 0xE9, CHR 0xEA, CHR 0xEB, CHR 0xEC, CHR 0xED, CHR 0xEE, CHR 0xEF,
      CHR 0xF0, CHR 0xF1, CHR 0xF2, CHR 0xF3, CHR 0xF4, CHR 0xF5, CHR 0xF6,
      CHR 0xF8, CHR 0xF9, CHR 0xFA, CHR 0xFB, CHR 0xFC, CHR 0xFD, CHR 0xFE]"

definition lower_char :: "char \<Rightarrow> char" where
  "lower_char c = (case map_of (zip upper_chars lower_chars) c of None \<Rightarrow> c | Some l \<Rightarrow> l)"

definition lower :: "string \<Rightarrow> string" where
  "lower s = map lower_char s"

section \<open>The first line of a commit message\<close>

text \<open>
  \<^verbatim>\<open>get_first_line\<close>: a falsy message gives the empty string; a string gives its first
  line, stripped, cut to 77 characters and an ellipsis when it is longer than 80; any
  other value has no \<^verbatim>\<open>split\<close> method.
\<close>

definition get_first_line :: "json \<Rightarrow> error + string" where
  "get_first_line text =
     (if \<not> truthy text then Inr []
      else (case text of
              JStr s \<Rightarrow>
                (let first_line = strip (hd (split_on nl s))
                 in if length first_line > 80 then Inr (take 77 first_line @ ''...'')
                    else Inr first_line)
            | _ \<Rightarrow> Inl AttributeError))"

section \<open>Dates\<close>

text \<open>
  A \<^verbatim>\<open>datetime\<close> of the Python library: the calendar fields and, for an
  offset-aware value, the offset from UTC in microseconds.
\<close>

record datetime =
  year :: nat
  month :: nat
  day :: nat
  hour :: nat
  minute :: nat
  second :: nat
  microsecond :: nat
  utcoffset :: "int option"

definition datetime_min :: datetime where
  "datetime_min = \<lparr>year = 1, month = 1, day = 1, hour = 0, minute = 0, second = 0,
     microsecond = 0, utcoffset = None\<rparr>"

definition aware :: "datetime \<Rightarrow> bool" where
  "aware d \<longleftrightarrow> utcoffset d \<noteq> None"

definition is_leap :: "nat \<Rightarrow> bool" where
  "is_leap y \<longleftrightarrow> y mod 4 = 0 \<and> (y mod 100 \<noteq> 0 \<or> y mod 400 = 0)"

definition days_in_month :: "nat \<Rightarrow> nat \<Rightarrow> nat" where
  "days_in_month y m =
     (if m = 2 then (if is_leap y then 29 else 28)
      else if m \<in> set [4, 6, 9, 11] then 30 else 31)"

definition days_before_year :: "nat \<Rightarrow> nat" where
  "days_before_year y = (y - 1) * 365 + (y - 1) div 4 - (y - 1) div 100 + (y - 1) div 400"

definition days_before_month :: "nat \<Rightarrow> nat \<Rightarrow> nat" where
  "days_before_month y m =
     [0, 31, 59, 90, 120, 151, 181, 212, 243, 273, 304, 334] ! (m - 1)
     + (if 2 < m \<and> is_leap y then 1 else 0)"

definition ymd_to_ord :: "nat \<Rightarrow> nat \<Rightarrow> nat \<Rightarrow> nat" where
  "ymd_to_ord y m d = days_before_year y + days_before_month y m + d"

text \<open>
  The position of a datetime on the time line, in microseconds: of the fields as they
  stand for a naive value, of the UTC instant for an aware one. Python orders two naive
  values by their fields and two aware values by their UTC instants, which is the order
  of these numbers.
\<close>

definition instant :: "datetime \<Rightarrow> int" where
  "instant d =
     ((((int (ymd_to_ord (year d) (month d) (day d)) * 24 + int (hour d)) * 60
         + int (minute d)) * 60 + int (second d)) * 1000000 + int (microsecond d))
     - (case utcoffset d of None \<Rightarrow> 0 | Some off \<Rightarrow> off)"

text \<open>\<^verbatim>\<open>a < b\<close> and \<^verbatim>\<open>a > b\<close> on datetimes: comparing a naive with an aware value
  raises \<^verbatim>\<open>TypeError\<close>.\<close>

definition dt_less :: "datetime \<Rightarrow> datetime \<Rightarrow> error + bool" where
  "dt_less a b = (if aware a = aware b then Inr (instant a < instant b) else Inl TypeError)"

definition dt_greater :: "datetime \<Rightarrow> datetime \<Rightarrow> error + bool" where
  "dt_greater a b = dt_less b a"

text \<open>
  Decimal numerals, zero padding, and the two \<^verbatim>\<open>strftime\<close> formats of the script.
  \<^verbatim>\<open>%m\<close> and \<^verbatim>\<open>%d\<close> are padded to two digits. \<^verbatim>\<open>%Y\<close> is the year as the
  C library of Linux prints it, without padding: \<^verbatim>\<open>999\<close> for the year 999. (Other
  platforms pad to four digits; from the year 1000 on all agree.)
\<close>

definition digit_char :: "nat \<Rightarrow> char" where
  "digit_char n = ''0123456789'' ! (n mod 10)"

fun digits :: "nat \<Rightarrow> string" where
  "digits n = (if n < 10 then [digit_char n] else digits (n div 10) @ [digit_char n])"

definition zero_pad :: "nat \<Rightarrow> nat \<Rightarrow> string" where
  "zero_pad w n = replicate (w - length (digits n)) CHR ''0'' @ digits n"

definition month_abbr :: "nat \<Rightarrow> string" where
  "month_abbr m =
     (if 1 \<le> m \<and> m \<le> 12
      then [''Jan'', ''Feb'', ''Mar'', ''Apr'', ''May'', ''Jun'',
            ''Jul'', ''Aug'', ''Sep'', ''Oct'', ''Nov'', ''Dec''] ! (m - 1)
      else [])"

definition strftime_b_d :: "datetime \<Rightarrow> string" where
  "strftime_b_d d = month_abbr (month d) @ '' '' @ zero_pad 2 (day d)"

definition strftime_Y_m_d :: "datetime \<Rightarrow> string" where
  "strftime_Y_m_d d =
     digits (year d) @ ''-'' @ zero_pad 2 (month d) @ ''-'' @ zero_pad 2 (day d)"

text \<open>
  \<^verbatim>\<open>parse_date\<close>. The parser \<^verbatim>\<open>datetime.fromisoformat\<close> of the Python library is a
  parameter: on a string it returns a datetime or raises \<^verbatim>\<open>ValueError\<close> (here
  \<open>None\<close>), which \<^verbatim>\<open>parse_date\<close> catches. A falsy argument gives no date; a truthy
  value other than a string has no \<^verbatim>\<open>replace\<close> method, and that \<^verbatim>\<open>AttributeError\<close>
  is not caught. Both branches of the source's test for an offset make the same call.
\<close>

definition parse_date :: "(string \<Rightarrow> datetime option) \<Rightarrow> json \<Rightarrow> error + datetime option" where
  "parse_date fromisoformat iso_string =
     (if \<not> truthy iso_string then Inr None
      else (case iso_string of
              JStr s \<Rightarrow> Inr (fromisoformat (replace_char CHR ''Z'' ''+00:00'' s))
            | _ \<Rightarrow> Inl AttributeError))"

definition format_date :: "datetime option \<Rightarrow> string" where
  "format_date dt = (case dt of None \<Rightarrow> [] | Some d \<Rightarrow> strftime_b_d d)"

text \<open>
  A parser for the three plain forms \<^verbatim>\<open>YYYY-MM-DD\<close>, \<^verbatim>\<open>YYYY-MM-DDTHH:MM:SS\<close> and
  \<^verbatim>\<open>YYYY-MM-DDTHH:MM:SS+HH:MM\<close> (or with \<^verbatim>\<open>-HH:MM\<close>), on which every version of
  \<^verbatim>\<open>datetime.fromisoformat\<close> agrees. It serves as the parser in the worked examples.
\<close>

definition digit_val :: "char \<Rightarrow> nat option" where
  "digit_val c =
     map_of [(CHR ''0'', 0), (CHR ''1'', 1), (CHR ''2'', 2), (CHR ''3'', 3), (CHR ''4'', 4),
             (CHR ''5'', 5), (CHR ''6'', 6), (CHR ''7'', 7), (CHR ''8'', 8), (CHR ''9'', 9)] c"

fun number_from :: "nat \<Rightarrow> string \<Rightarrow> nat option" where
  "number_from acc [] = Some acc"
| "number_from acc (c # cs) =
     (case digit_val c of None \<Rightarrow> None | Some v \<Rightarrow> number_from (acc * 10 + v) cs)"

definition number :: "string \<Rightarrow> nat option" where
  "number s = number_from 0 s"

definition parse_ymd :: "string \<Rightarrow> (nat \<times> nat \<times> nat) option" where
  "parse_ymd s =
     (case (number (take 4 s), number (take 2 (drop 5 s)), number (take 2 (drop 8 s))) of
        (Some y, Some m, Some d) \<Rightarrow>
          if length s = 10 \<and> s ! 4 = CHR ''-'' \<and> s ! 7 = CHR ''-'' \<and> 1 \<le> y
             \<and> 1 \<le> m \<and> m \<le> 12 \<and> 1 \<le> d \<and> d \<le> days_in_month y m
          then Some (y, m, d) else None
      | _ \<Rightarrow> None)"

definition parse_hms :: "string \<Rightarrow> (nat \<times> nat \<times> nat) option" where
  "parse_hms s =
     (case (number (take 2 s), number (take 2 (drop 3 s)), number (take 2 (drop 6 s))) of
        (Some h, Some m, Some sec) \<Rightarrow>
          if length s = 8 \<and> s ! 2 = CHR '':'' \<and> s ! 5 = CHR '':'' \<and> h < 24 \<and> m < 60 \<and> sec < 60
          then Some (h, m, sec) else None
      | _ \<Rightarrow> None)"

definition parse_offset :: "string \<Rightarrow> int option option" where
  "parse_offset s =
     (if s = [] then Some None
      else (case (number (take 2 (drop 1 s)), number (take 2 (drop 4 s))) of
              (Some h, Some m) \<Rightarrow>
                if length s = 6 \<and> s ! 0 \<in> set ''+-'' \<and> s ! 3 = CHR '':'' \<and> h < 24 \<and> m < 60
                then Some (Some ((if s ! 0 = CHR ''-'' then - 1 else 1)
                                  * int ((h * 60 + m) * 60 * 1000000)))
                else None
            | _ \<Rightarrow> None))"

definition fromisoformat_plain :: "string \<Rightarrow> datetime option" where
  "fromisoformat_plain s =
     (case parse_ymd (take 10 s) of
        None \<Rightarrow> None
      | Some (y, m, d) \<Rightarrow>
          if length s = 10
          then Some \<lparr>year = y, month = m, day = d, hour = 0, minute = 0, second = 0,
                     microsecond = 0, utcoffset = None\<rparr>
          else if s ! 10 \<noteq> CHR ''T'' then None
          else (case (parse_hms (take 8 (drop 11 s)), parse_offset (drop 19 s)) of
                  (Some (h, mi, sec), Some off) \<Rightarrow>
                    Some \<lparr>year = y, month = m, day = d, hour = h, minute = mi, second = sec,
                          microsecond = 0, utcoffset = off\<rparr>
                | _ \<Rightarrow> None))"

section \<open>Sequencing and containers\<close>

text \<open>Sequencing of steps that may raise: the first exception ends the run.\<close>

definition and_then :: "error + 'a \<Rightarrow> ('a \<Rightarrow> error + 'b) \<Rightarrow> error + 'b" where
  "and_then m f = (case m of Inl e \<Rightarrow> Inl e | Inr x \<Rightarrow> f x)"

fun map_err :: "('a \<Rightarrow> error + 'b) \<Rightarrow> 'a list \<Rightarrow> error + 'b list" where
  "map_err f [] = Inr []"
| "map_err f (x # xs) =
     and_then (f x) (\<lambda>y. and_then (map_err f xs) (\<lambda>ys. Inr (y # ys)))"

text \<open>
  \<^verbatim>\<open>for item in data\<close>: a list gives its elements, an object its keys, a string its
  characters; nothing else can be iterated.
\<close>

fun py_iter :: "json \<Rightarrow> error + json list" where
  "py_iter (JArr xs) = Inr xs"
| "py_iter (JObj kvs) = Inr (map (\<lambda>kv. JStr (fst kv)) kvs)"
| "py_iter (JStr s) = Inr (map (\<lambda>c. JStr [c]) s)"
| "py_iter _ = Inl TypeError"

text \<open>
  The \<^verbatim>\<open>defaultdict(list)\<close> of a classifier is an association list in insertion
  order. A list or an object cannot be a key; \<^verbatim>\<open>True\<close> and \<^verbatim>\<open>1\<close>, and
  \<^verbatim>\<open>False\<close> and \<^verbatim>\<open>0\<close>, are the same key, and the key first inserted stays.
\<close>

fun hashable :: "json \<Rightarrow> bool" where
  "hashable (JArr xs) = False"
| "hashable (JObj kvs) = False"
| "hashable _ = True"

fun key_norm :: "json \<Rightarrow> json" where
  "key_norm (JBool b) = JInt (if b then 1 else 0)"
| "key_norm v = v"

definition key_eq :: "json \<Rightarrow> json \<Rightarrow> bool" where
  "key_eq a b \<longleftrightarrow> key_norm a = key_norm b"

text \<open>\<^verbatim>\<open>grouped[repo].append(r)\<close>.\<close>

fun dict_append :: "json \<Rightarrow> 'r \<Rightarrow> (json \<times> 'r list) list \<Rightarrow> (json \<times> 'r list) list" where
  "dict_append k r [] = [(k, [r])]"
| "dict_append k r ((k', rs) # g) =
     (if key_eq k k' then (k', rs @ [r]) # g else (k', rs) # dict_append k r g)"

text \<open>\<^verbatim>\<open>grouped[repo]\<close>.\<close>

fun dict_items :: "(json \<times> 'r list) list \<Rightarrow> json \<Rightarrow> 'r list" where
  "dict_items [] k = []"
| "dict_items ((k', rs) # g) k = (if key_eq k k' then rs else dict_items g k)"

section \<open>The classifiers\<close>

text \<open>
  The normalized records. All carry \<open>date\<close>; a pull request is an issue with the
  \<open>merged\<close> flag. Title, url and body are stored as they come from the item.
\<close>

record dated =
  date :: "datetime option"

record commit = dated +
  message :: string

record issue = dated +
  title :: json
  state :: string
  url :: json
  body :: json

record pr = issue +
  merged :: bool

text \<open>
  \<^verbatim>\<open>items.sort(key=lambda x: x['date'] or datetime.min, reverse=True)\<close>. The sort is
  stable and, reversed, keeps records of equal key in their order: it reverses the list,
  sorts it upwards and reverses it again. With two or more records it compares keys, and
  a comparison of an aware datetime with a naive one (\<^verbatim>\<open>datetime.min\<close> is naive)
  raises \<^verbatim>\<open>TypeError\<close>; a list holding both kinds always meets such a comparison.
\<close>

definition sort_key_of :: "'a dated_scheme \<Rightarrow> datetime" where
  "sort_key_of x = (case date x of None \<Rightarrow> datetime_min | Some d \<Rightarrow> d)"

definition comparable :: "datetime list \<Rightarrow> bool" where
  "comparable ds \<longleftrightarrow> list_all (\<lambda>d. aware d = aware (hd ds)) ds"

definition sort_newest_first :: "'a dated_scheme list \<Rightarrow> error + 'a dated_scheme list" where
  "sort_newest_first items =
     (if comparable (map sort_key_of items)
      then Inr (rev (sort_key (\<lambda>x. instant (sort_key_of x)) (rev items)))
      else Inl TypeError)"

text \<open>\<^verbatim>\<open>for repo in grouped: grouped[repo].sort(...)\<close>.\<close>

fun sort_groups ::
  "(json \<times> 'a dated_scheme list) list \<Rightarrow> error + (json \<times> 'a dated_scheme list) list" where
  "sort_groups [] = Inr []"
| "sort_groups ((repo, items) # g) =
     and_then (sort_newest_first items)
       (\<lambda>sorted_items. and_then (sort_groups g) (\<lambda>g'. Inr ((repo, sorted_items) # g')))"

text \<open>
  The loop of a classifier: \<open>entry\<close> is the loop body up to the record it appends, and
  gives the repository key with the record.
\<close>

fun group_items ::
  "(json \<Rightarrow> error + json \<times> 'r) \<Rightarrow> json list \<Rightarrow> (json \<times> 'r list) list
     \<Rightarrow> error + (json \<times> 'r list) list" where
  "group_items entry [] grouped = Inr grouped"
| "group_items entry (item # items) grouped =
     and_then (entry item)
       (\<lambda>(repo, r). group_items entry items (dict_append repo r grouped))"

text \<open>
  The body of the loop of \<^verbatim>\<open>process_commits\<close>, in the order of evaluation of the
  source: repository name, commit, author, date, message, and then the lookup
  \<^verbatim>\<open>grouped[repo]\<close>, which raises \<^verbatim>\<open>TypeError\<close> on a key that cannot be hashed.
\<close>

definition commit_entry :: "(string \<Rightarrow> datetime option) \<Rightarrow> json \<Rightarrow> error + json \<times> commit" where
  "commit_entry fromisoformat item =
     and_then (py_get item ''repository'' (JObj [])) (\<lambda>repository.
     and_then (py_get repository ''name'' (JStr ''unknown'')) (\<lambda>repo.
     and_then (py_get item ''commit'' (JObj [])) (\<lambda>commit.
     and_then (py_get commit ''author'' (JObj [])) (\<lambda>author.
     and_then (py_get author ''date'' JNull) (\<lambda>d.
     and_then (parse_date fromisoformat d) (\<lambda>date.
     and_then (py_get commit ''message'' (JStr [])) (\<lambda>m.
     and_then (get_first_line m) (\<lambda>message.
     if hashable repo then Inr (repo, \<lparr>date = date, message = message\<rparr>)
     else Inl TypeError))))))))"

definition process_commits ::
  "(string \<Rightarrow> datetime option) \<Rightarrow> json \<Rightarrow> error + (json \<times> commit list) list" where
  "process_commits fromisoformat data =
     and_then (py_iter data) (\<lambda>items.
     and_then (group_items (commit_entry fromisoformat) items []) sort_groups)"

text \<open>
  The repository key of an issue or a pull request: \<^verbatim>\<open>nameWithOwner\<close>, else
  \<^verbatim>\<open>name\<close>, else \<^verbatim>\<open>'unknown'\<close>. The default argument is evaluated before the
  outer lookup.
\<close>

definition repo_of :: "json \<Rightarrow> error + json" where
  "repo_of item =
     and_then (py_get item ''repository'' (JObj [])) (\<lambda>repository.
     and_then (py_get repository ''name'' (JStr ''unknown'')) (\<lambda>name.
     py_get repository ''nameWithOwner'' name))"

text \<open>\<^verbatim>\<open>item.get('state', '').lower()\<close>: only a string has the method.\<close>

definition state_of :: "json \<Rightarrow> error + string" where
  "state_of item =
     and_then (py_get item ''state'' (JStr [])) (\<lambda>s.
       case s of JStr raw \<Rightarrow> Inr (lower raw) | _ \<Rightarrow> Inl AttributeError)"

text \<open>
  The body of the loop of \<^verbatim>\<open>process_issues\<close>: repository key, date, the lookup
  \<^verbatim>\<open>grouped[repo]\<close>, then the fields of the record in the order they are written.
\<close>

definition issue_entry :: "(string \<Rightarrow> datetime option) \<Rightarrow> json \<Rightarrow> error + json \<times> issue" where
  "issue_entry fromisoformat item =
     and_then (repo_of item) (\<lambda>repo.
     and_then (py_get item ''createdAt'' JNull) (\<lambda>d.
     and_then (parse_date fromisoformat d) (\<lambda>date.
     if \<not> hashable repo then Inl TypeError
     else
     and_then (py_get item ''title'' (JStr [])) (\<lambda>t.
     and_then (state_of item) (\<lambda>st.
     and_then (py_get item ''url'' (JStr [])) (\<lambda>u.
     and_then (py_get item ''body'' (JStr [])) (\<lambda>b.
     Inr (repo, \<lparr>date = date, title = t, state = st, url = u, body = b\<rparr>))))))))"

definition process_issues ::
  "(string \<Rightarrow> datetime option) \<Rightarrow> json \<Rightarrow> error + (json \<times> issue list) list" where
  "process_issues fromisoformat data =
     and_then (py_iter data) (\<lambda>items.
     and_then (group_items (issue_entry fromisoformat) items []) sort_groups)"

text \<open>The body of the loop of \<^verbatim>\<open>process_prs\<close>: as for issues, with \<open>merged\<close>
  computed from the state a second time, after \<open>url\<close>.\<close>

definition pr_entry :: "(string \<Rightarrow> datetime option) \<Rightarrow> json \<Rightarrow> error + json \<times> pr" where
  "pr_entry fromisoformat item =
     and_then (repo_of item) (\<lambda>repo.
     and_then (py_get item ''createdAt'' JNull) (\<lambda>d.
     and_then (parse_date fromisoformat d) (\<lambda>date.
     if \<not> hashable repo then Inl TypeError
     else
     and_then (py_get item ''title'' (JStr [])) (\<lambda>t.
     and_then (state_of item) (\<lambda>st.
     and_then (py_get item ''url'' (JStr [])) (\<lambda>u.
     and_then (state_of item) (\<lambda>st2.
     and_then (py_get item ''body'' (JStr [])) (\<lambda>b.
     Inr (repo, \<lparr>date = date, title = t, state = st, url = u, body = b,
                 merged = (st2 = ''merged'')\<rparr>)))))))))"

definition process_prs ::
  "(string \<Rightarrow> datetime option) \<Rightarrow> json \<Rightarrow> error + (json \<times> pr list) list" where
  "process_prs fromisoformat data =
     and_then (py_iter data) (\<lambda>items.
     and_then (group_items (pr_entry fromisoformat) items []) sort_groups)"

section \<open>The renderer\<close>

text \<open>\<^verbatim>\<open>format_body\<close>: the stripped body, one quoted line for each of its lines.\<close>

definition format_body :: "json \<Rightarrow> string \<Rightarrow> error + string list" where
  "format_body b indent =
     (if \<not> truthy b then Inr []
      else (case b of
              JStr s \<Rightarrow>
                if strip s = [] then Inr []
                else Inr (map (\<lambda>line. indent @ ''> '' @ line) (split_on nl (strip s)))
            | _ \<Rightarrow> Inl AttributeError))"

text \<open>
  A value inside an f-string is rendered by \<^verbatim>\<open>str\<close>: a string as it stands,
  \<^verbatim>\<open>None\<close>, the booleans and the integers by their names. For a list or an object
  \<^verbatim>\<open>str\<close> is the \<^verbatim>\<open>repr\<close> of the Python library, a parameter here.
\<close>

definition str_of_int :: "int \<Rightarrow> string" where
  "str_of_int i = (if i < 0 then ''-'' @ digits (nat (- i)) else digits (nat i))"

definition py_str :: "(json \<Rightarrow> string) \<Rightarrow> json \<Rightarrow> string" where
  "py_str repr v =
     (case v of
        JStr s \<Rightarrow> s
      | JNull \<Rightarrow> ''None''
      | JBool b \<Rightarrow> (if b then ''True'' else ''False'')
      | JInt i \<Rightarrow> str_of_int i
      | _ \<Rightarrow> repr v)"

text \<open>
  \<^verbatim>\<open>min\<close> and \<^verbatim>\<open>max\<close> of a list of datetimes: the first least and the first
  greatest element; every element is compared with the current one, so a list with a
  naive and an aware value raises \<^verbatim>\<open>TypeError\<close>.
\<close>

fun min_from :: "datetime \<Rightarrow> datetime list \<Rightarrow> error + datetime" where
  "min_from m [] = Inr m"
| "min_from m (d # ds) = and_then (dt_less d m) (\<lambda>b. min_from (if b then d else m) ds)"

fun max_from :: "datetime \<Rightarrow> datetime list \<Rightarrow> error + datetime" where
  "max_from m [] = Inr m"
| "max_from m (d # ds) = and_then (dt_greater d m) (\<lambda>b. max_from (if b then d else m) ds)"

fun py_min :: "datetime list \<Rightarrow> error + datetime" where
  "py_min [] = Inl ValueError"
| "py_min (d # ds) = min_from d ds"

fun py_max :: "datetime list \<Rightarrow> error + datetime" where
  "py_max [] = Inl ValueError"
| "py_max (d # ds) = max_from d ds"

text \<open>\<^verbatim>\<open>[i['date'] for i in repo_items if i['date']]\<close>.\<close>

definition present_dates :: "'a dated_scheme list \<Rightarrow> datetime list" where
  "present_dates repo_items =
     concat (map (\<lambda>i. case date i of None \<Rightarrow> [] | Some d \<Rightarrow> [d]) repo_items)"

definition all_dates_of ::
  "(json \<times> commit list) list \<Rightarrow> (json \<times> 'a issue_scheme list) list \<Rightarrow> datetime list" where
  "all_dates_of commits issues_created =
     concat (map (\<lambda>(repo, repo_items). present_dates repo_items) commits)
     @ concat (map (\<lambda>(repo, repo_items). present_dates repo_items) issues_created)"

definition period_of :: "datetime list \<Rightarrow> error + string" where
  "period_of all_dates =
     (if all_dates \<noteq> []
      then and_then (py_min all_dates) (\<lambda>min_date.
           and_then (py_max all_dates) (\<lambda>max_date.
           Inr (strftime_Y_m_d min_date @ '' to '' @ strftime_Y_m_d max_date)))
      else Inr ''unknown'')"

text \<open>\<^verbatim>\<open>sum(len(items) for items in grouped.values())\<close>.\<close>

definition total_count :: "(json \<times> 'r list) list \<Rightarrow> nat" where
  "total_count grouped = sum_list (map (\<lambda>(repo, items). length items) grouped)"

text \<open>
  \<^verbatim>\<open>sorted(grouped.keys())\<close>. Strings are ordered by code points, lexicographically;
  integers and booleans by value. Two keys of different kinds, and \<^verbatim>\<open>None\<close> with any
  other key, cannot be compared.
\<close>

fun is_str :: "json \<Rightarrow> bool" where
  "is_str (JStr s) = True"
| "is_str _ = False"

fun is_number :: "json \<Rightarrow> bool" where
  "is_number (JInt i) = True"
| "is_number (JBool b) = True"
| "is_number _ = False"

fun str_val :: "json \<Rightarrow> string" where
  "str_val (JStr s) = s"
| "str_val _ = []"

fun num_val :: "json \<Rightarrow> int" where
  "num_val (JInt i) = i"
| "num_val (JBool b) = (if b then 1 else 0)"
| "num_val _ = 0"

definition sorted_keys :: "json list \<Rightarrow> error + json list" where
  "sorted_keys ks =
     (if list_all is_str ks then Inr (sort_key str_val ks)
      else if list_all is_number ks then Inr (sort_key num_val ks)
      else if length ks \<le> 1 then Inr ks
      else Inl TypeError)"

text \<open>
  The loop over the repositories of one section; \<open>item_lines\<close> renders one record.
  The five sections of the source are this loop with five different bodies.
\<close>

definition repo_block ::
  "(json \<Rightarrow> string) \<Rightarrow> ('r \<Rightarrow> error + string list) \<Rightarrow> (json \<times> 'r list) list \<Rightarrow> json
     \<Rightarrow> error + string list" where
  "repo_block repr item_lines grouped repo =
     and_then (map_err item_lines (dict_items grouped repo))
       (\<lambda>ls. Inr ((''### '' @ py_str repr repo) # concat ls @ [[]]))"

definition section_lines ::
  "(json \<Rightarrow> string) \<Rightarrow> ('r \<Rightarrow> error + string list) \<Rightarrow> (json \<times> 'r list) list
     \<Rightarrow> error + string list" where
  "section_lines repr item_lines grouped =
     (if grouped \<noteq> []
      then and_then (sorted_keys (map fst grouped)) (\<lambda>repos.
           and_then (map_err (repo_block repr item_lines grouped) repos) (\<lambda>blocks.
           Inr (concat blocks)))
      else Inr [''None'', []])"

definition date_part :: "datetime option \<Rightarrow> string" where
  "date_part dt =
     (let date_str = format_date dt
      in if date_str \<noteq> [] then '' ('' @ date_str @ '')'' else [])"

definition state_part :: "string \<Rightarrow> string" where
  "state_part st = (if st \<noteq> [] then '' ['' @ st @ '']'' else [])"

definition commit_lines :: "commit \<Rightarrow> error + string list" where
  "commit_lines item = Inr [''- '' @ message item @ date_part (date item)]"

definition body_lines :: "bool \<Rightarrow> json \<Rightarrow> error + string list" where
  "body_lines include_body b = (if include_body then format_body b ''  '' else Inr [])"

definition issue_created_line :: "(json \<Rightarrow> string) \<Rightarrow> 'a issue_scheme \<Rightarrow> string" where
  "issue_created_line repr item =
     ''- '' @ py_str repr (title item) @ date_part (date item) @ state_part (state item)"

definition issue_created_lines ::
  "(json \<Rightarrow> string) \<Rightarrow> bool \<Rightarrow> 'a issue_scheme \<Rightarrow> error + string list" where
  "issue_created_lines repr include_body item =
     and_then (body_lines include_body (body item))
       (\<lambda>quoted. Inr (issue_created_line repr item # quoted))"

definition issue_commented_lines ::
  "(json \<Rightarrow> string) \<Rightarrow> 'a issue_scheme \<Rightarrow> error + string list" where
  "issue_commented_lines repr item =
     Inr [''- '' @ py_str repr (title item) @ state_part (state item)]"

definition pr_state_part :: "'a pr_scheme \<Rightarrow> string" where
  "pr_state_part item = (if merged item then '' [merged]'' else state_part (state item))"

definition pr_created_line :: "(json \<Rightarrow> string) \<Rightarrow> 'a pr_scheme \<Rightarrow> string" where
  "pr_created_line repr item =
     ''- '' @ py_str repr (title item) @ date_part (date item) @ pr_state_part item"

definition pr_created_lines ::
  "(json \<Rightarrow> string) \<Rightarrow> bool \<Rightarrow> 'a pr_scheme \<Rightarrow> error + string list" where
  "pr_created_lines repr include_body item =
     and_then (body_lines include_body (body item))
       (\<lambda>quoted. Inr (pr_created_line repr item # quoted))"

definition header_lines :: "string \<Rightarrow> string \<Rightarrow> nat \<Rightarrow> nat \<Rightarrow> nat \<Rightarrow> nat \<Rightarrow> nat \<Rightarrow> string list" where
  "header_lines period dir_name total_commits total_issues_created total_issues_commented
       total_prs_created total_prs_reviewed =
     [''---'',
      ''period: '' @ period,
      ''source: '' @ dir_name,
      ''commits: '' @ digits total_commits,
      ''issues_created: '' @ digits total_issues_created,
      ''issues_commented: '' @ digits total_issues_commented,
      ''prs_created: '' @ digits total_prs_created,
      ''prs_reviewed: '' @ digits total_prs_reviewed,
      ''---'',
      [],
      ''# Weekly GitHub Activity'',
      []]"

definition section_head :: "string \<Rightarrow> nat \<Rightarrow> string list" where
  "section_head name n = [''## '' @ name @ '' ('' @ digits n @ '')'', []]"

text \<open>\<^verbatim>\<open>generate_markdown\<close>, as the list of lines it builds and as the joined text.\<close>

definition markdown_lines ::
  "(json \<Rightarrow> string) \<Rightarrow> (json \<times> commit list) list \<Rightarrow> (json \<times> issue list) list
     \<Rightarrow> (json \<times> issue list) list \<Rightarrow> (json \<times> pr list) list \<Rightarrow> (json \<times> pr list) list
     \<Rightarrow> string \<Rightarrow> bool \<Rightarrow> error + string list" where
  "markdown_lines repr commits issues_created issues_commented prs_created prs_reviewed
       dir_name include_body =
     and_then (period_of (all_dates_of commits issues_created)) (\<lambda>period.
     and_then (section_lines repr commit_lines commits) (\<lambda>s1.
     and_then (section_lines repr (issue_created_lines repr include_body) issues_created) (\<lambda>s2.
     and_then (section_lines repr (issue_commented_lines repr) issues_commented) (\<lambda>s3.
     and_then (section_lines repr (pr_created_lines repr include_body) prs_created) (\<lambda>s4.
     and_then (section_lines repr (issue_commented_lines repr) prs_reviewed) (\<lambda>s5.
     Inr (header_lines period dir_name (total_count commits) (total_count issues_created)
            (total_count issues_commented) (total_count prs_created) (total_count prs_reviewed)
          @ section_head ''Commits'' (total_count commits) @ s1
          @ section_head ''Issues Created'' (total_count issues_created) @ s2
          @ section_head ''Issues Commented'' (total_count issues_commented) @ s3
          @ section_head ''PRs Created'' (total_count prs_created) @ s4
          @ section_head ''PRs Reviewed'' (total_count prs_reviewed) @ s5)))))))"

definition generate_markdown ::
  "(json \<Rightarrow> string) \<Rightarrow> (json \<times> commit list) list \<Rightarrow> (json \<times> issue list) list
     \<Rightarrow> (json \<times> issue list) list \<Rightarrow> (json \<times> pr list) list \<Rightarrow> (json \<times> pr list) list
     \<Rightarrow> string \<Rightarrow> bool \<Rightarrow> error + string" where
  "generate_markdown repr commits issues_created issues_commented prs_created prs_reviewed
       dir_name include_body =
     and_then (markdown_lines repr commits issues_created issues_commented prs_created
                 prs_reviewed dir_name include_body)
       (\<lambda>lines. Inr (join [nl] lines))"

section \<open>Loading and the run\<close>

text \<open>
  What opening and reading a path can give: no such file, no permission, a directory,
  bytes that are not text in the encoding, or the text of the file. The JSON parser
  \<^verbatim>\<open>json.load\<close> of the Python library is a parameter: on a text it gives a value
  or raises, \<^verbatim>\<open>JSONDecodeError\<close> on a text that is not JSON, and other exceptions on
  some texts that are (\<^verbatim>\<open>ValueError\<close> on an integer of more than 4300 digits,
  \<^verbatim>\<open>RecursionError\<close> on deep nesting). \<^verbatim>\<open>load_json\<close> catches
  \<^verbatim>\<open>FileNotFoundError\<close> and \<^verbatim>\<open>JSONDecodeError\<close> and nothing else.
\<close>

datatype file_state = Missing | NoPermission | Directory | Undecodable | Text string

definition load_json :: "(string \<Rightarrow> error + json) \<Rightarrow> file_state \<Rightarrow> error + json" where
  "load_json json_loads filepath =
     (case filepath of
        Missing \<Rightarrow> Inr (JArr [])
      | NoPermission \<Rightarrow> Inl PermissionError
      | Directory \<Rightarrow> Inl IsADirectoryError
      | Undecodable \<Rightarrow> Inl UnicodeDecodeError
      | Text t \<Rightarrow>
          (case json_loads t of
             Inl e \<Rightarrow> (if e = JSONDecodeError then Inr (JArr []) else Inl e)
           | Inr data \<Rightarrow> Inr (if truthy data then data else JArr [])))"

text \<open>
  The part of \<^verbatim>\<open>main\<close> between the check of the directory and the writing of the
  output: the five files are loaded, then the five collections are classified, then the
  document is rendered.
\<close>

definition digest ::
  "(string \<Rightarrow> datetime option) \<Rightarrow> (json \<Rightarrow> string)
     \<Rightarrow> json \<Rightarrow> json \<Rightarrow> json \<Rightarrow> json \<Rightarrow> json \<Rightarrow> string \<Rightarrow> bool \<Rightarrow> error + string" where
  "digest fromisoformat repr commits_data issues_created_data issues_commented_data
       prs_created_data prs_reviewed_data dir_name include_body =
     and_then (process_commits fromisoformat commits_data) (\<lambda>commits.
     and_then (process_issues fromisoformat issues_created_data) (\<lambda>issues_created.
     and_then (process_issues fromisoformat issues_commented_data) (\<lambda>issues_commented.
     and_then (process_prs fromisoformat prs_created_data) (\<lambda>prs_created.
     and_then (process_prs fromisoformat prs_reviewed_data) (\<lambda>prs_reviewed.
     generate_markdown repr commits issues_created issues_commented prs_created
       prs_reviewed dir_name include_body)))))"

definition summarize ::
  "(string \<Rightarrow> error + json) \<Rightarrow> (string \<Rightarrow> datetime option) \<Rightarrow> (json \<Rightarrow> string)
     \<Rightarrow> file_state \<Rightarrow> file_state \<Rightarrow> file_state \<Rightarrow> file_state \<Rightarrow> file_state
     \<Rightarrow> string \<Rightarrow> bool \<Rightarrow> error + string" where
  "summarize json_loads fromisoformat repr f_commits f_issues_created f_issues_commented
       f_prs_created f_prs_reviewed dir_name include_body =
     and_then (load_json json_loads f_commits) (\<lambda>commits_data.
     and_then (load_json json_loads f_issues_created) (\<lambda>issues_created_data.
     and_then (load_json json_loads f_issues_commented) (\<lambda>issues_commented_data.
     and_then (load_json json_loads f_prs_created) (\<lambda>prs_created_data.
     and_then (load_json json_loads f_prs_reviewed) (\<lambda>prs_reviewed_data.
     digest fromisoformat repr commits_data issues_created_data issues_commented_data
       prs_created_data prs_reviewed_data dir_name include_body)))))"

section \<open>Datasets that differ in url values only\<close>

text \<open>
  Two raw items are the same but for the url when they are equal, or are objects with
  the same keys in the same order and the same value under every key other than
  \<^verbatim>\<open>url\<close>. Two loaded collections are variants when they are equal or are lists of
  such items, pairwise.
\<close>

fun same_but_url :: "json \<Rightarrow> json \<Rightarrow> bool" where
  "same_but_url (JObj kvs) (JObj kvs') =
     list_all2 (\<lambda>kv kv'. fst kv = fst kv' \<and> (fst kv = ''url'' \<or> snd kv = snd kv')) kvs kvs'"
| "same_but_url a b = (a = b)"

fun url_variant :: "json \<Rightarrow> json \<Rightarrow> bool" where
  "url_variant (JArr xs) (JArr ys) = list_all2 same_but_url xs ys"
| "url_variant a b = (a = b)"

text \<open>
  For the comparison of two runs: a record without its url, and a group, an entry of a
  classifier's loop and a classifier's result with every record mapped.
\<close>

definition forget_url :: "'a issue_scheme \<Rightarrow> 'a issue_scheme" where
  "forget_url r = r\<lparr>url := JNull\<rparr>"

definition map_groups :: "('r \<Rightarrow> 's) \<Rightarrow> (json \<times> 'r list) list \<Rightarrow> (json \<times> 's list) list" where
  "map_groups h g = map (\<lambda>(repo, items). (repo, map h items)) g"

definition entry_upto :: "('r \<Rightarrow> 's) \<Rightarrow> error + json \<times> 'r \<Rightarrow> error + json \<times> 's" where
  "entry_upto h e = (case e of Inl x \<Rightarrow> Inl x | Inr (repo, r) \<Rightarrow> Inr (repo, h r))"

definition groups_upto ::
  "('r \<Rightarrow> 's) \<Rightarrow> error + (json \<times> 'r list) list \<Rightarrow> error + (json \<times> 's list) list" where
  "groups_upto h m = (case m of Inl e \<Rightarrow> Inl e | Inr g \<Rightarrow> Inr (map_groups h g))"

section \<open>The repository headings among the lines of a section\<close>

text \<open>
  A repository subsection starts with a heading line, \<^verbatim>\<open>### \<close> and the repository;
  the headings of a list of lines are those lines, in their order.
\<close>

definition is_heading :: "string \<Rightarrow> bool" where
  "is_heading l \<longleftrightarrow> take 4 l = ''### ''"

definition headings :: "string list \<Rightarrow> string list" where
  "headings ls = filter is_heading ls"

section \<open>Well-shaped raw items\<close>

text \<open>
  The shape of the items of an export (section 6 of the specification), with every key
  optional: the item is an object; \<^verbatim>\<open>repository\<close>, \<^verbatim>\<open>commit\<close> and
  \<^verbatim>\<open>author\<close>, where present, are objects; the names of the repository are strings;
  a date and a commit message are strings or \<^verbatim>\<open>null\<close>; a state is a string.
  Title, url and body may be anything.
\<close>

fun is_obj :: "json \<Rightarrow> bool" where
  "is_obj (JObj kvs) = True"
| "is_obj _ = False"

fun text_or_null :: "json \<Rightarrow> bool" where
  "text_or_null (JStr s) = True"
| "text_or_null JNull = True"
| "text_or_null _ = False"

definition field :: "json \<Rightarrow> string \<Rightarrow> json option" where
  "field v k = (case v of JObj kvs \<Rightarrow> map_of kvs k | _ \<Rightarrow> None)"

definition absent_or :: "(json \<Rightarrow> bool) \<Rightarrow> json option \<Rightarrow> bool" where
  "absent_or P v = (case v of None \<Rightarrow> True | Some x \<Rightarrow> P x)"

definition repository_shaped :: "json \<Rightarrow> bool" where
  "repository_shaped item \<longleftrightarrow>
     absent_or (\<lambda>r. is_obj r \<and> absent_or is_str (field r ''name'')
                    \<and> absent_or is_str (field r ''nameWithOwner''))
       (field item ''repository'')"

definition commit_shaped :: "json \<Rightarrow> bool" where
  "commit_shaped item \<longleftrightarrow>
     is_obj item \<and> repository_shaped item
     \<and> absent_or (\<lambda>c. is_obj c \<and> absent_or text_or_null (field c ''message'')
                      \<and> absent_or (\<lambda>a. is_obj a \<and> absent_or text_or_null (field a ''date''))
                            (field c ''author''))
         (field item ''commit'')"

definition issue_shaped :: "json \<Rightarrow> bool" where
  "issue_shaped item \<longleftrightarrow>
     is_obj item \<and> repository_shaped item
     \<and> absent_or text_or_null (field item ''createdAt'')
     \<and> absent_or is_str (field item ''state'')"

text \<open>
  The date that the loop body of a classifier gives to an item, and the lists of such
  dates that one sort can order: no date is offset-aware (absent and unparseable dates
  count as naive), or every date is present and offset-aware.
\<close>

definition entry_date :: "error + json \<times> 'a dated_scheme \<Rightarrow> datetime option" where
  "entry_date e = (case e of Inl x \<Rightarrow> None | Inr (repo, r) \<Rightarrow> date r)"

definition dates_sortable :: "datetime option list \<Rightarrow> bool" where
  "dates_sortable ds \<longleftrightarrow>
     list_all (\<lambda>d. case d of None \<Rightarrow> True | Some x \<Rightarrow> \<not> aware x) ds
     \<or> list_all (\<lambda>d. case d of None \<Rightarrow> False | Some x \<Rightarrow> aware x) ds"

section \<open>The dates of the period in the words of the specification\<close>

text \<open>
  The specification takes the period from the dates found across all commit records and
  all issues-created records: the dates of the records of a grouped collection, and the
  union over those two collections. The form \<^verbatim>\<open>YYYY-MM-DD\<close> is ten characters,
  digits but for the two hyphens.
\<close>

definition dates_found :: "(json \<times> 'a dated_scheme list) list \<Rightarrow> datetime set" where
  "dates_found grouped =
     {d. \<exists>repo items i. (repo, items) \<in> set grouped \<and> i \<in> set items \<and> date i = Some d}"

definition period_dates ::
  "(json \<times> commit list) list \<Rightarrow> (json \<times> 'a issue_scheme list) list \<Rightarrow> datetime set" where
  "period_dates commits issues_created = dates_found commits \<union> dates_found issues_created"

definition is_digit :: "char \<Rightarrow> bool" where
  "is_digit c \<longleftrightarrow> c \<in> set ''0123456789''"

definition iso_date_form :: "string \<Rightarrow> bool" where
  "iso_date_form s \<longleftrightarrow>
     length s = 10 \<and> s ! 4 = CHR ''-'' \<and> s ! 7 = CHR ''-''
     \<and> list_all is_digit (take 4 s) \<and> list_all is_digit (take 2 (drop 5 s))
     \<and> list_all is_digit (drop 8 s)"

section \<open>The body rendering in the words of the specification\<close>

text \<open>
  The specification describes the quoted body as the lines of the body, after trimming
  leading and trailing blank lines, each behind a two-space indent and \<^verbatim>\<open>> \<close>. This
  is that description, to be compared with \<^verbatim>\<open>format_body\<close>; a blank line is a line
  of whitespace only.
\<close>

definition blank_line :: "string \<Rightarrow> bool" where
  "blank_line l \<longleftrightarrow> list_all isspace l"

definition trim_blank_lines :: "string list \<Rightarrow> string list" where
  "trim_blank_lines ls = rev (dropWhile blank_line (rev (dropWhile blank_line ls)))"

definition quoted_body_spec :: "string \<Rightarrow> string list" where
  "quoted_body_spec s = map (\<lambda>line. ''  > '' @ line) (trim_blank_lines (split_on nl s))"

text \<open>
  Two stand-ins for library functions in the worked examples: \<^verbatim>\<open>json.loads\<close> on a
  few texts (a run of more than 4300 digits raises \<^verbatim>\<open>ValueError\<close>, the listed
  texts parse, and the other texts used here are not JSON), and \<^verbatim>\<open>repr\<close> on the
  empty list and the empty object (no example renders another container).
\<close>

definition json_loads_table :: "string \<Rightarrow> error + json" where
  "json_loads_table t =
     (if 4300 < length t \<and> list_all (\<lambda>c. c \<in> set ''0123456789'') t then Inl ValueError
      else (case map_of [(''[]'', JArr []), (''{}'', JObj []), (''null'', JNull),
                         (''0'', JInt 0), (''[{}]'', JArr [JObj []])] t of
              None \<Rightarrow> Inl JSONDecodeError
            | Some v \<Rightarrow> Inr v))"

definition repr_empty :: "json \<Rightarrow> string" where
  "repr_empty v = (case v of JObj kvs \<Rightarrow> ''{}'' | _ \<Rightarrow> ''[]'')"

section \<open>Basic facts\<close>

lemma and_then_Inr [simp]: "and_then (Inr x) f = f x"
  by (simp add: and_then_def)

lemma and_then_Inl [simp]: "and_then (Inl e) f = Inl e"
  by (simp add: and_then_def)

lemma and_then_eq_Inr: "and_then m f = Inr y \<longleftrightarrow> (\<exists>x. m = Inr x \<and> f x = Inr y)"
  by (cases m) simp_all

declare digits.simps [simp del]

lemma digits_0: "digits 0 = ''0''"
  by (simp add: digits.simps digit_char_def)

lemma and_then_InrE:
  assumes "and_then m f = Inr y"
  obtains x where "m = Inr x" and "f x = Inr y"
  using assms by (cases m) simp_all

lemmas digits_numeral = digits.simps [of "numeral k" for k]

lemma digits_small: "n < 10 \<Longrightarrow> digits n = [''0123456789'' ! n]"
  by (simp add: digits.simps digit_char_def)

lemmas date_defs = instant_def ymd_to_ord_def days_before_year_def days_before_month_def
  is_leap_def dt_less_def dt_greater_def aware_def

lemmas format_defs = strftime_Y_m_d_def strftime_b_d_def zero_pad_def month_abbr_def
  digits_numeral digits_0 digits_small digit_char_def format_date_def date_part_def state_part_def

lemmas render_defs = generate_markdown_def markdown_lines_def period_of_def all_dates_of_def
  present_dates_def section_lines_def repo_block_def header_lines_def section_head_def
  total_count_def sorted_keys_def key_eq_def py_str_def commit_lines_def
  issue_created_lines_def issue_created_line_def issue_commented_lines_def
  pr_created_lines_def pr_created_line_def pr_state_part_def body_lines_def

lemmas parser_defs = fromisoformat_plain_def parse_ymd_def parse_hms_def parse_offset_def
  number_def digit_val_def days_in_month_def is_leap_def

lemmas strip_defs = strip_def lstrip_def rstrip_def isspace_def

lemmas lower_defs = lower_def lower_char_def upper_chars_def lower_chars_def

lemma parse_utc_example:
  "fromisoformat_plain ''2025-11-20T10:00:00+00:00''
   = Some \<lparr>year = 2025, month = 11, day = 20, hour = 10, minute = 0, second = 0,
            microsecond = 0, utcoffset = Some 0\<rparr>"
  by (simp add: parser_defs)

section \<open>Properties of the string operations\<close>

lemma split_on_not_Nil: "split_on c s \<noteq> []"
  by (induction s) (auto split: list.splits)

lemma hd_split_on: "hd (split_on c s) = takeWhile (\<lambda>x. x \<noteq> c) s"
  using split_on_not_Nil [of c]
  by (induction s) (auto split: list.splits)

lemma join_split_on: "join [c] (split_on c s) = s"
proof (induction s)
  case Nil
  show ?case by simp
next
  case (Cons x xs)
  obtain l ls where sp: "split_on c xs = l # ls"
    using split_on_not_Nil [of c xs] by (cases "split_on c xs") auto
  with Cons show ?case by (cases ls) auto
qed

lemma split_on_no_sep: "l \<in> set (split_on c s) \<Longrightarrow> c \<notin> set l"
proof (induction s arbitrary: l)
  case Nil
  then show ?case by simp
next
  case (Cons x xs)
  obtain m ms where sp: "split_on c xs = m # ms"
    using split_on_not_Nil [of c xs] by (cases "split_on c xs") auto
  with Cons show ?case by (auto split: if_splits)
qed

section \<open>Commit messages\<close>

text \<open>
  C3. The normalized message of a commit whose raw message is the string \<open>text\<close> is the
  first line of \<open>text\<close> (all of it up to the first newline), stripped of surrounding
  whitespace; when that stripped line is longer than 80 characters the result is its first
  77 characters followed by three dots, 80 characters in all, and otherwise the stripped
  line itself.
\<close>

theorem get_first_line_truncation:
  "(let first_line = strip (takeWhile (\<lambda>c. c \<noteq> nl) text)
    in (80 < length first_line \<longrightarrow>
          get_first_line (JStr text) = Inr (take 77 first_line @ ''...'') \<and>
          length (take 77 first_line @ ''...'') = 80) \<and>
       (length first_line \<le> 80 \<longrightarrow> get_first_line (JStr text) = Inr first_line))"
proof -
  have empty: "text = [] \<Longrightarrow> strip (takeWhile (\<lambda>c. c \<noteq> nl) text) = []"
    by (simp add: strip_def lstrip_def rstrip_def)
  show ?thesis
  proof (cases "text = []")
    case True
    with empty show ?thesis by (simp add: get_first_line_def Let_def)
  next
    case False
    then show ?thesis
      by (simp add: get_first_line_def Let_def hd_split_on)
  qed
qed

theorem get_first_line_truncation_witness:
  "get_first_line (JStr (''  '' @ replicate 85 CHR ''a'' @ '' '' @ [nl] @ ''body''))
     = Inr (replicate 77 CHR ''a'' @ ''...'')"
proof -
  let ?text = "''  '' @ replicate 85 CHR ''a'' @ '' '' @ [nl] @ ''body''"
  have tw: "takeWhile (\<lambda>c. c \<noteq> nl) ?text = ''  '' @ replicate 85 CHR ''a'' @ '' ''"
    by (simp add: nl_def takeWhile_append)
  have st: "strip (''  '' @ replicate 85 CHR ''a'' @ '' '') = replicate 85 CHR ''a''"
    by (simp add: strip_def lstrip_def rstrip_def isspace_def dropWhile_append)
  have tk: "take 77 (replicate 85 CHR ''a'') = replicate 77 CHR ''a''"
    by simp
  from get_first_line_truncation [of ?text] show ?thesis
    unfolding Let_def tw st tk by simp
qed

section \<open>The merged tag of a pull request\<close>

text \<open>
  C4. A pull-request record made by \<^verbatim>\<open>process_prs\<close> from an item renders, in the
  PRs Created section, the tag \<^verbatim>\<open>[merged]\<close> if and only if the raw state of the item
  (the empty string when the key is absent), lowercased, is exactly \<^verbatim>\<open>merged\<close>;
  otherwise the tag is the lowercased state in brackets, or nothing when the state is
  empty. The tag ends the list line of the record.
\<close>

theorem pr_merged_tag:
  assumes "pr_entry fromisoformat item = Inr (repo, r)"
  shows "\<exists>raw. py_get item ''state'' (JStr []) = Inr (JStr raw)
           \<and> (pr_state_part r = '' [merged]'' \<longleftrightarrow> lower raw = ''merged'')
           \<and> (lower raw \<noteq> ''merged'' \<longrightarrow>
                 pr_state_part r = (if lower raw = [] then [] else '' ['' @ lower raw @ '']''))
           \<and> (\<forall>ls. pr_created_lines repr include_body r = Inr ls \<longrightarrow>
                 (\<exists>quoted. ls = (''- '' @ py_str repr (title r) @ date_part (date r)
                                    @ pr_state_part r) # quoted))"
proof -
  from assms obtain st where st: "state_of item = Inr st"
    and r: "state r = st" "merged r = (st = ''merged'')"
    by (auto simp: pr_entry_def and_then_def split: sum.splits if_splits)
  from st obtain raw where raw: "py_get item ''state'' (JStr []) = Inr (JStr raw)"
    and low: "st = lower raw"
    by (auto simp: state_of_def and_then_def split: sum.splits json.splits)
  have tag: "pr_state_part r = '' [merged]'' \<longleftrightarrow> lower raw = ''merged''"
    using r low by (auto simp: pr_state_part_def state_part_def)
  have other: "lower raw \<noteq> ''merged'' \<longrightarrow>
      pr_state_part r = (if lower raw = [] then [] else '' ['' @ lower raw @ '']'')"
    using r low by (simp add: pr_state_part_def state_part_def)
  have line: "\<forall>ls. pr_created_lines repr include_body r = Inr ls \<longrightarrow>
      (\<exists>quoted. ls = (''- '' @ py_str repr (title r) @ date_part (date r)
                         @ pr_state_part r) # quoted)"
    by (auto simp: pr_created_lines_def pr_created_line_def and_then_def split: sum.splits)
  from raw tag other line show ?thesis by blast
qed

theorem pr_merged_tag_witness:
  "pr_entry fromisoformat_plain (JObj [(''title'', JStr ''Add parser''), (''state'', JStr ''MERGED'')])
     = Inr (JStr ''unknown'',
            \<lparr>date = None, title = JStr ''Add parser'', state = ''merged'', url = JStr [],
             body = JStr [], merged = True\<rparr>)
   \<and> pr_state_part \<lparr>date = None, title = JStr ''Add parser'', state = ''merged'',
         url = JStr [], body = JStr [], merged = True\<rparr> = '' [merged]''"
proof -
  let ?item = "JObj [(''title'', JStr ''Add parser''), (''state'', JStr ''MERGED'')]"
  let ?r = "\<lparr>date = None, title = JStr ''Add parser'', state = ''merged'', url = JStr [],
             body = JStr [], merged = True\<rparr>"
  have e: "pr_entry fromisoformat_plain ?item = Inr (JStr ''unknown'', ?r)"
    by (simp add: pr_entry_def repo_of_def state_of_def parse_date_def lower_defs)
  from pr_merged_tag [OF e] obtain raw where
    raw: "py_get ?item ''state'' (JStr []) = Inr (JStr raw)"
    and tag: "pr_state_part ?r = '' [merged]'' \<longleftrightarrow> lower raw = ''merged''"
    by blast
  from raw have "raw = ''MERGED''" by simp
  then have "lower raw = ''merged''" by (simp add: lower_defs)
  with tag e show ?thesis by simp
qed

lemma partial_match_is_not_merged:
  "pr_entry fromisoformat_plain (JObj [(''state'', JStr ''merged_with_conflicts'')])
     = Inr (JStr ''unknown'',
            \<lparr>date = None, title = JStr [], state = ''merged_with_conflicts'', url = JStr [],
             body = JStr [], merged = False\<rparr>)"
  by (simp add: pr_entry_def repo_of_def state_of_def parse_date_def lower_defs)

section \<open>Absent dates in a sorted group\<close>

text \<open>
  C2. Two commits of one repository, the first without a date and the second with the
  date \<^verbatim>\<open>2025-11-20T10:00:00Z\<close>: the claim places the dated record first and the
  undated one after it. The classifier returns no group at all: the sort compares the
  aware datetime of the second record with the naive \<^verbatim>\<open>datetime.min\<close> that stands
  for the absent date of the first, and raises \<^verbatim>\<open>TypeError\<close>.
\<close>

theorem undated_next_to_utc_date_raises:
  "process_commits fromisoformat_plain
     (JArr [JObj [(''commit'', JObj [(''message'', JStr ''older work'')])],
            JObj [(''commit'', JObj [(''message'', JStr ''newer work''),
                    (''author'', JObj [(''date'', JStr ''2025-11-20T10:00:00Z'')])])]])
   = Inl TypeError"
  by (simp add: process_commits_def commit_entry_def get_first_line_def parse_date_def
      replace_char_def parse_utc_example nl_def strip_defs key_eq_def
      sort_newest_first_def comparable_def sort_key_of_def aware_def datetime_min_def)

section \<open>The document of an empty export\<close>

text \<open>
  C7. When all five JSON files are missing, all five collections are empty and the run
  returns this document, whatever the source label and the body flag: the period is
  \<^verbatim>\<open>unknown\<close>, the five counts are zero, and each of the five sections is the
  line \<^verbatim>\<open>None\<close>.
\<close>

theorem empty_input_document:
  "summarize json_loads fromisoformat repr Missing Missing Missing Missing Missing
     dir_name include_body
   = Inr (join [nl]
       [''---'',
        ''period: unknown'',
        ''source: '' @ dir_name,
        ''commits: 0'',
        ''issues_created: 0'',
        ''issues_commented: 0'',
        ''prs_created: 0'',
        ''prs_reviewed: 0'',
        ''---'',
        [],
        ''# Weekly GitHub Activity'',
        [],
        ''## Commits (0)'', [], ''None'', [],
        ''## Issues Created (0)'', [], ''None'', [],
        ''## Issues Commented (0)'', [], ''None'', [],
        ''## PRs Created (0)'', [], ''None'', [],
        ''## PRs Reviewed (0)'', [], ''None'', []])"
  by (simp add: summarize_def digest_def load_json_def process_commits_def process_issues_def
      process_prs_def generate_markdown_def markdown_lines_def period_of_def all_dates_of_def
      section_lines_def header_lines_def section_head_def total_count_def digits_0)

theorem empty_input_document_witness:
  "summarize json_loads_table fromisoformat_plain repr_empty Missing Missing Missing Missing
     Missing ''gh_20251125'' True
   = Inr (join [nl]
       [''---'',
        ''period: unknown'',
        ''source: gh_20251125'',
        ''commits: 0'',
        ''issues_created: 0'',
        ''issues_commented: 0'',
        ''prs_created: 0'',
        ''prs_reviewed: 0'',
        ''---'',
        [],
        ''# Weekly GitHub Activity'',
        [],
        ''## Commits (0)'', [], ''None'', [],
        ''## Issues Created (0)'', [], ''None'', [],
        ''## Issues Commented (0)'', [], ''None'', [],
        ''## PRs Created (0)'', [], ''None'', [],
        ''## PRs Reviewed (0)'', [], ''None'', []])"
  using empty_input_document [of json_loads_table fromisoformat_plain repr_empty
      "''gh_20251125''" True]
  by simp

section \<open>The loader\<close>

lemma json_loads_table_examples:
  "json_loads_table [] = Inl JSONDecodeError"
  "json_loads_table ''not json'' = Inl JSONDecodeError"
  "json_loads_table ''{}'' = Inr (JObj [])"
  "json_loads_table ''[{}]'' = Inr (JArr [JObj []])"
  by (simp_all add: json_loads_table_def)

lemma json_loads_table_long_integer:
  "json_loads_table (replicate 4301 CHR ''1'') = Inl ValueError"
  by (simp add: json_loads_table_def list_all_iff)

text \<open>
  C6, as the source has it. \<^verbatim>\<open>load_json\<close> returns a value in exactly these cases:
  the empty list when the file is missing, when its text is not JSON (the parser raises
  \<^verbatim>\<open>JSONDecodeError\<close>; the empty text is such a text) and when the text parses to a
  falsy value (\<^verbatim>\<open>null\<close>, \<^verbatim>\<open>false\<close>, \<^verbatim>\<open>0\<close>, the empty string, list or
  object); and the parsed value when that is truthy. It raises to its caller in exactly
  these cases: the file exists and cannot be read (no permission, a directory, bytes that
  do not decode), or the parser raises anything other than \<^verbatim>\<open>JSONDecodeError\<close>.
\<close>

theorem load_json_cases:
  "(load_json json_loads filepath = Inr v \<longleftrightarrow>
      (v = JArr [] \<and>
         (filepath = Missing
          \<or> (\<exists>t. filepath = Text t \<and> json_loads t = Inl JSONDecodeError)
          \<or> (\<exists>t data. filepath = Text t \<and> json_loads t = Inr data \<and> \<not> truthy data)))
      \<or> (\<exists>t. filepath = Text t \<and> json_loads t = Inr v \<and> truthy v))
   \<and> (load_json json_loads filepath = Inl e \<longleftrightarrow>
      (filepath = NoPermission \<and> e = PermissionError)
      \<or> (filepath = Directory \<and> e = IsADirectoryError)
      \<or> (filepath = Undecodable \<and> e = UnicodeDecodeError)
      \<or> (\<exists>t. filepath = Text t \<and> json_loads t = Inl e \<and> e \<noteq> JSONDecodeError))"
proof (cases filepath)
  case (Text t)
  show ?thesis
  proof (cases "json_loads t")
    case (Inl x)
    with Text show ?thesis by (auto simp: load_json_def)
  next
    case (Inr data)
    with Text show ?thesis by (auto simp: load_json_def)
  qed
qed (auto simp: load_json_def)

theorem load_json_cases_witness:
  "load_json json_loads_table Missing = Inr (JArr [])
   \<and> load_json json_loads_table (Text []) = Inr (JArr [])
   \<and> load_json json_loads_table (Text ''{}'') = Inr (JArr [])
   \<and> load_json json_loads_table (Text ''[{}]'') = Inr (JArr [JObj []])
   \<and> load_json json_loads_table (Text (replicate 4301 CHR ''1'')) = Inl ValueError"
proof -
  have a: "load_json json_loads_table Missing = Inr (JArr [])"
    using load_json_cases [of json_loads_table Missing "JArr []"] by simp
  have b: "load_json json_loads_table (Text []) = Inr (JArr [])"
    using load_json_cases [of json_loads_table "Text []" "JArr []"]
      json_loads_table_examples(1) by simp
  have c: "load_json json_loads_table (Text ''{}'') = Inr (JArr [])"
    using load_json_cases [of json_loads_table "Text ''{}''" "JArr []"]
      json_loads_table_examples(3) by simp
  have d: "load_json json_loads_table (Text ''[{}]'') = Inr (JArr [JObj []])"
    using load_json_cases [of json_loads_table "Text ''[{}]''" "JArr [JObj []]"]
      json_loads_table_examples(4) by simp
  have e: "load_json json_loads_table (Text (replicate 4301 CHR ''1'')) = Inl ValueError"
    using load_json_cases [of json_loads_table "Text (replicate 4301 CHR ''1'')" _ ValueError]
      json_loads_table_long_integer by simp
  from a b c d e show ?thesis by simp
qed

text \<open>
  The claim as stated fails on a file that exists and cannot be read: the loader raises
  to its caller.
\<close>

theorem load_json_unreadable_raises:
  "load_json json_loads_table NoPermission = Inl PermissionError"
  by (simp add: load_json_def)

section \<open>Raw items that stop a classifier\<close>

text \<open>
  The claim C1 as stated fails on an item whose \<^verbatim>\<open>repository\<close> is \<^verbatim>\<open>null\<close>: the
  default of \<^verbatim>\<open>get\<close> stands in for a missing key only, and the lookup of the name on
  \<^verbatim>\<open>None\<close> raises \<^verbatim>\<open>AttributeError\<close>.
\<close>

theorem null_repository_raises:
  "process_commits fromisoformat_plain (JArr [JObj [(''repository'', JNull)]])
   = Inl AttributeError"
  by (simp add: process_commits_def commit_entry_def)

lemma null_state_raises:
  "process_issues fromisoformat_plain (JArr [JObj [(''state'', JNull)]]) = Inl AttributeError"
  "process_prs fromisoformat_plain (JArr [JObj [(''state'', JNull)]]) = Inl AttributeError"
  by (simp_all add: process_issues_def process_prs_def issue_entry_def pr_entry_def repo_of_def
      state_of_def parse_date_def)

section \<open>The quoted body of an issue or a pull request\<close>

lemma body_lines_off: "body_lines False b = Inr []"
  by (simp add: body_lines_def)

lemma body_lines_falsy: "\<not> truthy b \<Longrightarrow> body_lines flag b = Inr []"
  by (simp add: body_lines_def format_body_def)

lemma body_lines_blank: "strip s = [] \<Longrightarrow> body_lines flag (JStr s) = Inr []"
  by (simp add: body_lines_def format_body_def)

lemma strip_Nil [simp]: "strip [] = []"
  by (simp add: strip_def lstrip_def rstrip_def)

lemma body_lines_text:
  assumes "strip s \<noteq> []"
  shows "body_lines True (JStr s) = Inr (map (\<lambda>line. ''  > '' @ line) (split_on nl (strip s)))"
proof -
  from assms have "s \<noteq> []" by auto
  with assms show ?thesis by (simp add: body_lines_def format_body_def)
qed

lemma strip_decompose:
  "\<exists>a b. s = a @ strip s @ b \<and> list_all isspace a \<and> list_all isspace b"
proof -
  let ?b = "rev (takeWhile isspace (rev s))"
  let ?a = "takeWhile isspace (rstrip s)"
  have "s = rstrip s @ ?b"
    unfolding rstrip_def by (metis rev_append rev_rev_ident takeWhile_dropWhile_id)
  moreover have "rstrip s = ?a @ strip s"
    by (simp add: strip_def lstrip_def)
  ultimately have "s = ?a @ strip s @ ?b" by (metis append.assoc)
  moreover have "list_all isspace ?a" "list_all isspace ?b"
    by (auto simp: list_all_iff dest: set_takeWhileD)
  ultimately show ?thesis by blast
qed

lemma strip_ends:
  assumes "strip s \<noteq> []"
  shows "\<not> isspace (hd (strip s)) \<and> \<not> isspace (last (strip s))"
proof -
  have h: "\<not> isspace (hd (strip s))"
    using assms by (simp add: strip_def lstrip_def hd_dropWhile)
  have r: "rstrip s \<noteq> []" using assms by (auto simp: strip_def lstrip_def)
  then have "\<not> isspace (last (rstrip s))"
    by (simp add: rstrip_def last_rev hd_dropWhile)
  moreover have "last (strip s) = last (rstrip s)"
    using assms unfolding strip_def lstrip_def
    by (metis append_is_Nil_conv last_appendR takeWhile_dropWhile_id)
  ultimately show ?thesis using h by simp
qed

text \<open>
  C9, as the source has it. For a record of the Issues Created or the PRs Created section:
  when body inclusion is off, or the body is falsy or a string of whitespace only, the
  record renders as its list line alone. When body inclusion is on and the body is a
  string with a character that is not whitespace, the list line is followed at once by
  one line for each line of the stripped body, each behind two spaces and \<^verbatim>\<open>> \<close>;
  the stripped body is the body without the whitespace at its two ends, so it neither
  starts nor ends with whitespace, and joining its lines with newlines gives it back.
\<close>

theorem created_body_rendering:
  fixes i :: issue and p :: pr
  shows
  "(\<not> include_body \<or> \<not> truthy (body i) \<or> (\<exists>s. body i = JStr s \<and> strip s = []) \<longrightarrow>
      issue_created_lines repr include_body i = Inr [issue_created_line repr i])
   \<and> (\<forall>s. include_body \<and> body i = JStr s \<and> strip s \<noteq> [] \<longrightarrow>
      issue_created_lines repr include_body i
        = Inr (issue_created_line repr i
               # map (\<lambda>line. ''  > '' @ line) (split_on nl (strip s)))
      \<and> join [nl] (split_on nl (strip s)) = strip s
      \<and> \<not> isspace (hd (strip s)) \<and> \<not> isspace (last (strip s)))
   \<and> (\<not> include_body \<or> \<not> truthy (body p) \<or> (\<exists>s. body p = JStr s \<and> strip s = []) \<longrightarrow>
      pr_created_lines repr include_body p = Inr [pr_created_line repr p])
   \<and> (\<forall>s. include_body \<and> body p = JStr s \<and> strip s \<noteq> [] \<longrightarrow>
      pr_created_lines repr include_body p
        = Inr (pr_created_line repr p
               # map (\<lambda>line. ''  > '' @ line) (split_on nl (strip s))))"
proof -
  have quiet: "body_lines flag b = Inr []"
    if "\<not> flag \<or> \<not> truthy b \<or> (\<exists>s. b = JStr s \<and> strip s = [])" for flag b
  proof (cases flag)
    case False
    then show ?thesis by (simp add: body_lines_off)
  next
    case True
    with that have "\<not> truthy b \<or> (\<exists>s. b = JStr s \<and> strip s = [])" by simp
    then show ?thesis using body_lines_falsy body_lines_blank by blast
  qed
  have a: "\<not> include_body \<or> \<not> truthy (body i) \<or> (\<exists>s. body i = JStr s \<and> strip s = []) \<longrightarrow>
      issue_created_lines repr include_body i = Inr [issue_created_line repr i]"
    using quiet [of include_body "body i"] by (simp add: issue_created_lines_def)
  have b: "\<forall>s. include_body \<and> body i = JStr s \<and> strip s \<noteq> [] \<longrightarrow>
      issue_created_lines repr include_body i
        = Inr (issue_created_line repr i
               # map (\<lambda>line. ''  > '' @ line) (split_on nl (strip s)))
      \<and> join [nl] (split_on nl (strip s)) = strip s
      \<and> \<not> isspace (hd (strip s)) \<and> \<not> isspace (last (strip s))"
  proof (intro allI impI)
    fix s
    assume h: "include_body \<and> body i = JStr s \<and> strip s \<noteq> []"
    then have "body_lines include_body (body i)
        = Inr (map (\<lambda>line. ''  > '' @ line) (split_on nl (strip s)))"
      using body_lines_text [of s] by simp
    then have "issue_created_lines repr include_body i
        = Inr (issue_created_line repr i
               # map (\<lambda>line. ''  > '' @ line) (split_on nl (strip s)))"
      by (simp add: issue_created_lines_def)
    moreover have "join [nl] (split_on nl (strip s)) = strip s"
      by (rule join_split_on)
    moreover have "\<not> isspace (hd (strip s)) \<and> \<not> isspace (last (strip s))"
      using h strip_ends [of s] by simp
    ultimately show "issue_created_lines repr include_body i
        = Inr (issue_created_line repr i
               # map (\<lambda>line. ''  > '' @ line) (split_on nl (strip s)))
      \<and> join [nl] (split_on nl (strip s)) = strip s
      \<and> \<not> isspace (hd (strip s)) \<and> \<not> isspace (last (strip s))"
      by simp
  qed
  have c: "\<not> include_body \<or> \<not> truthy (body p) \<or> (\<exists>s. body p = JStr s \<and> strip s = []) \<longrightarrow>
      pr_created_lines repr include_body p = Inr [pr_created_line repr p]"
    using quiet [of include_body "body p"] by (simp add: pr_created_lines_def)
  have d: "\<forall>s. include_body \<and> body p = JStr s \<and> strip s \<noteq> [] \<longrightarrow>
      pr_created_lines repr include_body p
        = Inr (pr_created_line repr p
               # map (\<lambda>line. ''  > '' @ line) (split_on nl (strip s)))"
  proof (intro allI impI)
    fix s
    assume h: "include_body \<and> body p = JStr s \<and> strip s \<noteq> []"
    then have "body_lines include_body (body p)
        = Inr (map (\<lambda>line. ''  > '' @ line) (split_on nl (strip s)))"
      using body_lines_text [of s] by simp
    then show "pr_created_lines repr include_body p
        = Inr (pr_created_line repr p
               # map (\<lambda>line. ''  > '' @ line) (split_on nl (strip s)))"
      by (simp add: pr_created_lines_def)
  qed
  show ?thesis
    apply (rule conjI, rule a)
    apply (rule conjI, rule b)
    apply (rule conjI, rule c)
    apply (rule d)
    done
qed

theorem created_body_rendering_witness:
  "issue_created_lines repr_empty True
     \<lparr>date = None, title = JStr ''Crash on start'', state = ''open'', url = JStr [],
      body = JStr (''line1'' @ [nl] @ ''line2'')\<rparr>
     = Inr [''- Crash on start [open]'', ''  > line1'', ''  > line2'']
   \<and> pr_created_lines repr_empty False
     \<lparr>date = None, title = JStr ''Add parser'', state = ''merged'', url = JStr [],
      body = JStr (''line1'' @ [nl] @ ''line2''), merged = True\<rparr>
     = Inr [''- Add parser [merged]'']"
proof -
  let ?i = "\<lparr>date = None, title = JStr ''Crash on start'', state = ''open'', url = JStr [],
      body = JStr (''line1'' @ [nl] @ ''line2'')\<rparr>"
  let ?p = "\<lparr>date = None, title = JStr ''Add parser'', state = ''merged'', url = JStr [],
      body = JStr (''line1'' @ [nl] @ ''line2''), merged = True\<rparr>"
  have st: "strip (''line1'' @ [nl] @ ''line2'') = ''line1'' @ [nl] @ ''line2''"
    by (simp add: strip_defs nl_def)
  have sp: "split_on nl (''line1'' @ [nl] @ ''line2'') = [''line1'', ''line2'']"
    by (simp add: nl_def)
  have il: "issue_created_line repr_empty ?i = ''- Crash on start [open]''"
    by (simp add: issue_created_line_def py_str_def date_part_def format_date_def
        state_part_def)
  have pl: "pr_created_line repr_empty ?p = ''- Add parser [merged]''"
    by (simp add: pr_created_line_def py_str_def date_part_def format_date_def
        pr_state_part_def)
  from created_body_rendering [of True ?i repr_empty ?p]
  have "issue_created_lines repr_empty True ?i
      = Inr (issue_created_line repr_empty ?i
             # map (\<lambda>line. ''  > '' @ line)
                 (split_on nl (strip (''line1'' @ [nl] @ ''line2''))))"
    using st by simp
  moreover from created_body_rendering [of False ?i repr_empty ?p]
  have "pr_created_lines repr_empty False ?p = Inr [pr_created_line repr_empty ?p]"
    by simp
  ultimately show ?thesis
    unfolding st sp il pl by simp
qed

text \<open>
  The claim as stated trims blank lines only. A body whose first line is indented shows
  the difference: the source strips the indentation of that line with the rest of the
  leading whitespace.
\<close>

theorem body_strip_counterexample:
  "issue_created_lines repr_empty True
     \<lparr>date = None, title = JStr ''Crash on start'', state = ''open'', url = JStr [],
      body = JStr ''    traceback''\<rparr>
     = Inr [''- Crash on start [open]'', ''  > traceback'']
   \<and> quoted_body_spec ''    traceback'' = [''  >     traceback'']"
  by (simp add: issue_created_lines_def issue_created_line_def body_lines_def format_body_def
      strip_defs nl_def py_str_def date_part_def format_date_def state_part_def
      quoted_body_spec_def trim_blank_lines_def blank_line_def)

section \<open>The period line\<close>

lemma dt_less_Inr: "dt_less a b = Inr r \<longleftrightarrow> aware a = aware b \<and> r = (instant a < instant b)"
  by (auto simp: dt_less_def)

lemma min_from_Inr:
  "min_from m ds = Inr r \<Longrightarrow> r \<in> set (m # ds) \<and> (\<forall>d\<in>set (m # ds). instant r \<le> instant d)"
proof (induction ds arbitrary: m)
  case Nil
  then show ?case by simp
next
  case (Cons d ds)
  from Cons.prems obtain b where b: "dt_less d m = Inr b"
    and rest: "min_from (if b then d else m) ds = Inr r"
    by (auto simp: and_then_eq_Inr)
  from Cons.IH [OF rest] have ih: "r \<in> set ((if b then d else m) # ds)"
    "\<forall>x\<in>set ((if b then d else m) # ds). instant r \<le> instant x" by simp_all
  from b have bv: "b = (instant d < instant m)" by (simp add: dt_less_Inr)
  show ?case
  proof (cases b)
    case True
    with ih bv show ?thesis by auto
  next
    case False
    with ih bv show ?thesis by auto
  qed
qed

lemma max_from_Inr:
  "max_from m ds = Inr r \<Longrightarrow> r \<in> set (m # ds) \<and> (\<forall>d\<in>set (m # ds). instant d \<le> instant r)"
proof (induction ds arbitrary: m)
  case Nil
  then show ?case by simp
next
  case (Cons d ds)
  from Cons.prems obtain b where b: "dt_greater d m = Inr b"
    and rest: "max_from (if b then d else m) ds = Inr r"
    by (auto simp: and_then_eq_Inr)
  from Cons.IH [OF rest] have ih: "r \<in> set ((if b then d else m) # ds)"
    "\<forall>x\<in>set ((if b then d else m) # ds). instant x \<le> instant r" by simp_all
  from b have bv: "b = (instant m < instant d)" by (simp add: dt_greater_def dt_less_Inr)
  show ?case
  proof (cases b)
    case True
    with ih bv show ?thesis by auto
  next
    case False
    with ih bv show ?thesis by auto
  qed
qed

lemma length_zero_pad: "w \<le> length (zero_pad w n)"
  by (simp add: zero_pad_def)

lemma digits_not_Nil: "digits n \<noteq> []"
  by (subst digits.simps) simp

lemma period_text_not_unknown:
  "strftime_Y_m_d a @ '' to '' @ strftime_Y_m_d b \<noteq> ''unknown''"
proof -
  have "Suc 0 \<le> length (digits (year a))"
    using digits_not_Nil [of "year a"] by (cases "digits (year a)") simp_all
  moreover have "2 \<le> length (zero_pad 2 (month a))" "2 \<le> length (zero_pad 2 (day a))"
    by (rule length_zero_pad)+
  ultimately have "8 \<le> length (strftime_Y_m_d a @ '' to '' @ strftime_Y_m_d b)"
    by (simp add: strftime_Y_m_d_def)
  then have "length (strftime_Y_m_d a @ '' to '' @ strftime_Y_m_d b) \<noteq> length ''unknown''"
    by simp
  then show ?thesis by metis
qed

lemma is_digit_digit_char: "is_digit (digit_char n)"
proof -
  have "n mod 10 < length ''0123456789''" by simp
  then have "''0123456789'' ! (n mod 10) \<in> set ''0123456789''" by (rule nth_mem)
  then show ?thesis by (simp only: digit_char_def is_digit_def)
qed

lemma digits_are_digits: "list_all is_digit (digits n)"
proof (induction n rule: digits.induct)
  case (1 n)
  show ?case
  proof (cases "n < 10")
    case True
    then show ?thesis by (subst digits.simps) (simp add: is_digit_digit_char)
  next
    case False
    with 1 show ?thesis by (subst digits.simps) (simp add: is_digit_digit_char)
  qed
qed

lemma length_digits_1: "n < 10 \<Longrightarrow> length (digits n) = 1"
  by (subst digits.simps) simp

lemma length_digits_2: "10 \<le> n \<Longrightarrow> n < 100 \<Longrightarrow> length (digits n) = 2"
  by (subst digits.simps) (simp add: length_digits_1)

lemma length_digits_3: "100 \<le> n \<Longrightarrow> n < 1000 \<Longrightarrow> length (digits n) = 3"
  by (subst digits.simps) (simp add: length_digits_2)

lemma length_digits_4: "1000 \<le> n \<Longrightarrow> n < 10000 \<Longrightarrow> length (digits n) = 4"
  by (subst digits.simps) (simp add: length_digits_3)

lemma zero_pad_2: "n < 100 \<Longrightarrow> length (zero_pad 2 n) = 2 \<and> list_all is_digit (zero_pad 2 n)"
proof -
  assume n: "n < 100"
  have z: "is_digit CHR ''0''" by (simp add: is_digit_def)
  have l: "length (digits n) = 1 \<or> length (digits n) = 2"
    using n length_digits_1 [of n] length_digits_2 [of n] by (cases "n < 10") simp_all
  then have "length (zero_pad 2 n) = 2" by (auto simp: zero_pad_def)
  moreover have "list_all is_digit (zero_pad 2 n)"
    using digits_are_digits [of n] z by (auto simp: zero_pad_def list_all_iff)
  ultimately show ?thesis by simp
qed

lemma strftime_Y_m_d_form:
  assumes "1000 \<le> year d" and "year d < 10000" and "month d < 100" and "day d < 100"
  shows "iso_date_form (strftime_Y_m_d d)"
proof -
  obtain y where y: "digits (year d) = y" by simp
  obtain m where m: "zero_pad 2 (month d) = m" by simp
  obtain dd where dd: "zero_pad 2 (day d) = dd" by simp
  from length_digits_4 [OF assms(1,2)] digits_are_digits [of "year d"] y
  have ly: "length y = 4" and dy: "list_all is_digit y" by simp_all
  from zero_pad_2 [OF assms(3)] m have lm: "length m = 2" and dm: "list_all is_digit m"
    by simp_all
  from zero_pad_2 [OF assms(4)] dd have ld: "length dd = 2" and ddd: "list_all is_digit dd"
    by simp_all
  have s: "strftime_Y_m_d d = y @ ''-'' @ m @ ''-'' @ dd"
    by (simp add: strftime_Y_m_d_def y m dd)
  show ?thesis
    unfolding s iso_date_form_def using ly dy lm dm ld ddd
    by (simp add: nth_append)
qed

lemma strftime_Y_m_d_year_999:
  "strftime_Y_m_d \<lparr>year = 999, month = 5, day = 5, hour = 0, minute = 0, second = 0,
      microsecond = 0, utcoffset = None\<rparr> = ''999-05-05''"
  by (simp add: format_defs)

lemma set_present_dates: "set (present_dates items) = {d. \<exists>i\<in>set items. date i = Some d}"
  by (auto simp: present_dates_def split: option.splits)

lemma set_dates_concat:
  "set (concat (map (\<lambda>(repo, repo_items). present_dates repo_items) grouped)) = dates_found grouped"
  by (auto simp: dates_found_def set_present_dates)

lemma set_all_dates_of:
  "set (all_dates_of commits issues_created) = period_dates commits issues_created"
  by (simp only: all_dates_of_def period_dates_def set_append set_dates_concat)

lemma period_of_Inr:
  assumes "period_of ds = Inr p"
  shows "(p = ''unknown'' \<longleftrightarrow> ds = [])
    \<and> (ds \<noteq> [] \<longrightarrow> (\<exists>earliest\<in>set ds. \<exists>latest\<in>set ds.
          (\<forall>d\<in>set ds. instant earliest \<le> instant d \<and> instant d \<le> instant latest)
          \<and> p = strftime_Y_m_d earliest @ '' to '' @ strftime_Y_m_d latest))"
proof (cases ds)
  case Nil
  with assms show ?thesis by (simp add: period_of_def)
next
  case (Cons d ds')
  from assms Cons have "and_then (min_from d ds') (\<lambda>min_date.
      and_then (max_from d ds') (\<lambda>max_date.
        Inr (strftime_Y_m_d min_date @ '' to '' @ strftime_Y_m_d max_date))) = Inr p"
    by (simp add: period_of_def)
  then obtain e where e: "min_from d ds' = Inr e"
    and r: "and_then (max_from d ds') (\<lambda>max_date.
        Inr (strftime_Y_m_d e @ '' to '' @ strftime_Y_m_d max_date)) = Inr p"
    by (rule and_then_InrE)
  from r obtain l where l: "max_from d ds' = Inr l"
    and p: "Inr (strftime_Y_m_d e @ '' to '' @ strftime_Y_m_d l) = (Inr p :: error + string)"
    by (rule and_then_InrE)
  from p have pv: "p = strftime_Y_m_d e @ '' to '' @ strftime_Y_m_d l" by simp
  from min_from_Inr [OF e] Cons have e1: "e \<in> set ds" and e2: "\<forall>x\<in>set ds. instant e \<le> instant x"
    by simp_all
  from max_from_Inr [OF l] Cons have l1: "l \<in> set ds" and l2: "\<forall>x\<in>set ds. instant x \<le> instant l"
    by simp_all
  have ne: "ds \<noteq> []" using Cons by simp
  have "p \<noteq> ''unknown''" using pv period_text_not_unknown by simp
  with ne have first: "p = ''unknown'' \<longleftrightarrow> ds = []" by simp
  have "(\<forall>x\<in>set ds. instant e \<le> instant x \<and> instant x \<le> instant l)
      \<and> p = strftime_Y_m_d e @ '' to '' @ strftime_Y_m_d l"
    using e2 l2 pv by simp
  with e1 l1 have second: "\<exists>earliest\<in>set ds. \<exists>latest\<in>set ds.
          (\<forall>d\<in>set ds. instant earliest \<le> instant d \<and> instant d \<le> instant latest)
          \<and> p = strftime_Y_m_d earliest @ '' to '' @ strftime_Y_m_d latest"
    by blast
  from first second show ?thesis by simp
qed

lemma markdown_lines_head:
  assumes "markdown_lines repr commits issues_created issues_commented prs_created
             prs_reviewed dir_name include_body = Inr ls"
  shows "\<exists>period more. period_of (all_dates_of commits issues_created) = Inr period
      \<and> ls = ''---'' # (''period: '' @ period) # (''source: '' @ dir_name) # (''commits: '' @ digits (total_count commits)) # more"
proof -
  from assms [unfolded markdown_lines_def]
  obtain period where p: "period_of (all_dates_of commits issues_created) = Inr period"
    and r1: "and_then (section_lines repr commit_lines commits) (\<lambda>s1.
     and_then (section_lines repr (issue_created_lines repr include_body) issues_created) (\<lambda>s2.
     and_then (section_lines repr (issue_commented_lines repr) issues_commented) (\<lambda>s3.
     and_then (section_lines repr (pr_created_lines repr include_body) prs_created) (\<lambda>s4.
     and_then (section_lines repr (issue_commented_lines repr) prs_reviewed) (\<lambda>s5.
     Inr (header_lines period dir_name (total_count commits) (total_count issues_created)
            (total_count issues_commented) (total_count prs_created) (total_count prs_reviewed)
          @ section_head ''Commits'' (total_count commits) @ s1
          @ section_head ''Issues Created'' (total_count issues_created) @ s2
          @ section_head ''Issues Commented'' (total_count issues_commented) @ s3
          @ section_head ''PRs Created'' (total_count prs_created) @ s4
          @ section_head ''PRs Reviewed'' (total_count prs_reviewed) @ s5)))))) = Inr ls"
    by (rule and_then_InrE)
  from r1 obtain s1 where r2: "and_then (section_lines repr (issue_created_lines repr include_body) issues_created) (\<lambda>s2.
     and_then (section_lines repr (issue_commented_lines repr) issues_commented) (\<lambda>s3.
     and_then (section_lines repr (pr_created_lines repr include_body) prs_created) (\<lambda>s4.
     and_then (section_lines repr (issue_commented_lines repr) prs_reviewed) (\<lambda>s5.
     Inr (header_lines period dir_name (total_count commits) (total_count issues_created)
            (total_count issues_commented) (total_count prs_created) (total_count prs_reviewed)
          @ section_head ''Commits'' (total_count commits) @ s1
          @ section_head ''Issues Created'' (total_count issues_created) @ s2
          @ section_head ''Issues Commented'' (total_count issues_commented) @ s3
          @ section_head ''PRs Created'' (total_count prs_created) @ s4
          @ section_head ''PRs Reviewed'' (total_count prs_reviewed) @ s5))))) = Inr ls"
    by (rule and_then_InrE)
  from r2 obtain s2 where r3: "and_then (section_lines repr (issue_commented_lines repr) issues_commented) (\<lambda>s3.
     and_then (section_lines repr (pr_created_lines repr include_body) prs_created) (\<lambda>s4.
     and_then (section_lines repr (issue_commented_lines repr) prs_reviewed) (\<lambda>s5.
     Inr (header_lines period dir_name (total_count commits) (total_count issues_created)
            (total_count issues_commented) (total_count prs_created) (total_count prs_reviewed)
          @ section_head ''Commits'' (total_count commits) @ s1
          @ section_head ''Issues Created'' (total_count issues_created) @ s2
          @ section_head ''Issues Commented'' (total_count issues_commented) @ s3
          @ section_head ''PRs Created'' (total_count prs_created) @ s4
          @ section_head ''PRs Reviewed'' (total_count prs_reviewed) @ s5)))) = Inr ls"
    by (rule and_then_InrE)
  from r3 obtain s3 where r4: "and_then (section_lines repr (pr_created_lines repr include_body) prs_created) (\<lambda>s4.
     and_then (section_lines repr (issue_commented_lines repr) prs_reviewed) (\<lambda>s5.
     Inr (header_lines period dir_name (total_count commits) (total_count issues_created)
            (total_count issues_commented) (total_count prs_created) (total_count prs_reviewed)
          @ section_head ''Commits'' (total_count commits) @ s1
          @ section_head ''Issues Created'' (total_count issues_created) @ s2
          @ section_head ''Issues Commented'' (total_count issues_commented) @ s3
          @ section_head ''PRs Created'' (total_count prs_created) @ s4
          @ section_head ''PRs Reviewed'' (total_count prs_reviewed) @ s5))) = Inr ls"
    by (rule and_then_InrE)
  from r4 obtain s4 where r5: "and_then (section_lines repr (issue_commented_lines repr) prs_reviewed) (\<lambda>s5.
     Inr (header_lines period dir_name (total_count commits) (total_count issues_created)
            (total_count issues_commented) (total_count prs_created) (total_count prs_reviewed)
          @ section_head ''Commits'' (total_count commits) @ s1
          @ section_head ''Issues Created'' (total_count issues_created) @ s2
          @ section_head ''Issues Commented'' (total_count issues_commented) @ s3
          @ section_head ''PRs Created'' (total_count prs_created) @ s4
          @ section_head ''PRs Reviewed'' (total_count prs_reviewed) @ s5)) = Inr ls"
    by (rule and_then_InrE)
  from r5 obtain s5 where r6: "Inr (header_lines period dir_name (total_count commits) (total_count issues_created)
            (total_count issues_commented) (total_count prs_created) (total_count prs_reviewed)
          @ section_head ''Commits'' (total_count commits) @ s1
          @ section_head ''Issues Created'' (total_count issues_created) @ s2
          @ section_head ''Issues Commented'' (total_count issues_commented) @ s3
          @ section_head ''PRs Created'' (total_count prs_created) @ s4
          @ section_head ''PRs Reviewed'' (total_count prs_reviewed) @ s5) = (Inr ls :: error + string list)"
    by (rule and_then_InrE)
  from r6 have "ls = ''---'' # (''period: '' @ period) # (''source: '' @ dir_name)
      # (''commits: '' @ digits (total_count commits)) # tl (tl (tl (tl ls)))"
    by (auto simp: header_lines_def)
  with p show ?thesis by blast
qed

lemma generate_markdown_prefix:
  assumes "generate_markdown repr commits issues_created issues_commented prs_created
             prs_reviewed dir_name include_body = Inr doc"
  shows "\<exists>period rest. period_of (all_dates_of commits issues_created) = Inr period
      \<and> doc = ''---'' @ [nl] @ ''period: '' @ period @ [nl] @ ''source: '' @ dir_name @ [nl] @ rest"
proof -
  from assms [unfolded generate_markdown_def]
  obtain ls where ls: "markdown_lines repr commits issues_created issues_commented
      prs_created prs_reviewed dir_name include_body = Inr ls"
    and doc: "Inr (join [nl] ls) = (Inr doc :: error + string)"
    by (rule and_then_InrE)
  from markdown_lines_head [OF ls] obtain period more
    where p: "period_of (all_dates_of commits issues_created) = Inr period"
      and lsd: "ls = ''---'' # (''period: '' @ period) # (''source: '' @ dir_name)
                  # (''commits: '' @ digits (total_count commits)) # more"
    by blast
  from doc lsd have "doc = ''---'' @ [nl] @ ''period: '' @ period @ [nl]
      @ ''source: '' @ dir_name @ [nl] @ join [nl] ((''commits: '' @ digits (total_count commits)) # more)"
    by simp
  with p show ?thesis by blast
qed

text \<open>
  C5, as the source has it. A rendered document starts with the delimiter line, the
  line \<^verbatim>\<open>period: \<close> and the period, and the source line. The period is
  \<^verbatim>\<open>unknown\<close> exactly when no commit record and no issues-created record has a
  date; the dates of the other three collections play no part. Otherwise it is an earliest
  and a latest of the dates of the commit records and the issues-created records, in the
  order of Python (by fields for naive values, by UTC instant for aware ones), each
  printed with its own calendar fields as year, month and day with \<^verbatim>\<open> to \<close>
  between the two; a date with a year of four digits is printed in the form
  \<^verbatim>\<open>YYYY-MM-DD\<close>.
\<close>

theorem period_line:
  assumes "generate_markdown repr commits issues_created issues_commented prs_created
             prs_reviewed dir_name include_body = Inr doc"
  shows "\<exists>period rest.
      doc = ''---'' @ [nl] @ ''period: '' @ period @ [nl] @ ''source: '' @ dir_name @ [nl] @ rest
      \<and> (period = ''unknown'' \<longleftrightarrow> period_dates commits issues_created = {})
      \<and> (period_dates commits issues_created \<noteq> {} \<longrightarrow>
           (\<exists>earliest\<in>period_dates commits issues_created.
            \<exists>latest\<in>period_dates commits issues_created.
              (\<forall>d\<in>period_dates commits issues_created.
                  instant earliest \<le> instant d \<and> instant d \<le> instant latest)
              \<and> period = strftime_Y_m_d earliest @ '' to '' @ strftime_Y_m_d latest
              \<and> (1000 \<le> year earliest \<and> year earliest < 10000 \<and> month earliest < 100
                    \<and> day earliest < 100 \<longrightarrow> iso_date_form (strftime_Y_m_d earliest))
              \<and> (1000 \<le> year latest \<and> year latest < 10000 \<and> month latest < 100
                    \<and> day latest < 100 \<longrightarrow> iso_date_form (strftime_Y_m_d latest))))"
proof -
  from generate_markdown_prefix [OF assms] obtain period rest
    where p: "period_of (all_dates_of commits issues_created) = Inr period"
      and d: "doc = ''---'' @ [nl] @ ''period: '' @ period @ [nl] @ ''source: '' @ dir_name
                @ [nl] @ rest"
    by blast
  let ?D = "period_dates commits issues_created"
  have e: "all_dates_of commits issues_created = [] \<longleftrightarrow> ?D = {}"
    using set_all_dates_of [of commits issues_created] by (metis set_empty)
  from period_of_Inr [OF p] have u: "period = ''unknown'' \<longleftrightarrow> ?D = {}"
    and r: "all_dates_of commits issues_created \<noteq> [] \<longrightarrow>
      (\<exists>earliest\<in>set (all_dates_of commits issues_created).
       \<exists>latest\<in>set (all_dates_of commits issues_created).
          (\<forall>d\<in>set (all_dates_of commits issues_created).
              instant earliest \<le> instant d \<and> instant d \<le> instant latest)
          \<and> period = strftime_Y_m_d earliest @ '' to '' @ strftime_Y_m_d latest)"
    using e by simp_all
  have "?D \<noteq> {} \<longrightarrow>
           (\<exists>earliest\<in>?D. \<exists>latest\<in>?D.
              (\<forall>d\<in>?D. instant earliest \<le> instant d \<and> instant d \<le> instant latest)
              \<and> period = strftime_Y_m_d earliest @ '' to '' @ strftime_Y_m_d latest
              \<and> (1000 \<le> year earliest \<and> year earliest < 10000 \<and> month earliest < 100
                    \<and> day earliest < 100 \<longrightarrow> iso_date_form (strftime_Y_m_d earliest))
              \<and> (1000 \<le> year latest \<and> year latest < 10000 \<and> month latest < 100
                    \<and> day latest < 100 \<longrightarrow> iso_date_form (strftime_Y_m_d latest)))"
  proof
    assume "?D \<noteq> {}"
    with e r obtain a b where a: "a \<in> ?D" and b: "b \<in> ?D"
      and o: "\<forall>d\<in>?D. instant a \<le> instant d \<and> instant d \<le> instant b"
      and pv: "period = strftime_Y_m_d a @ '' to '' @ strftime_Y_m_d b"
      unfolding set_all_dates_of by blast
    have fa: "1000 \<le> year a \<and> year a < 10000 \<and> month a < 100 \<and> day a < 100
        \<longrightarrow> iso_date_form (strftime_Y_m_d a)"
      using strftime_Y_m_d_form [of a] by blast
    have fb: "1000 \<le> year b \<and> year b < 10000 \<and> month b < 100 \<and> day b < 100
        \<longrightarrow> iso_date_form (strftime_Y_m_d b)"
      using strftime_Y_m_d_form [of b] by blast
    from a b o pv fa fb show "\<exists>earliest\<in>?D. \<exists>latest\<in>?D.
              (\<forall>d\<in>?D. instant earliest \<le> instant d \<and> instant d \<le> instant latest)
              \<and> period = strftime_Y_m_d earliest @ '' to '' @ strftime_Y_m_d latest
              \<and> (1000 \<le> year earliest \<and> year earliest < 10000 \<and> month earliest < 100
                    \<and> day earliest < 100 \<longrightarrow> iso_date_form (strftime_Y_m_d earliest))
              \<and> (1000 \<le> year latest \<and> year latest < 10000 \<and> month latest < 100
                    \<and> day latest < 100 \<longrightarrow> iso_date_form (strftime_Y_m_d latest))"
      by blast
  qed
  with d u show ?thesis by blast
qed

theorem period_line_witness:
  "generate_markdown repr_empty
     [(JStr ''acme/app'',
       [\<lparr>date = Some \<lparr>year = 2025, month = 11, day = 20, hour = 10, minute = 0,
                      second = 0, microsecond = 0, utcoffset = Some 0\<rparr>,
         message = ''Fix bug''\<rparr>,
        \<lparr>date = None, message = ''Undated''\<rparr>])]
     [(JStr ''acme/app'',
       [\<lparr>date = Some \<lparr>year = 2025, month = 11, day = 22, hour = 9, minute = 30,
                      second = 0, microsecond = 0, utcoffset = Some 0\<rparr>,
         title = JStr ''Crash on start'', state = ''open'', url = JStr [], body = JStr []\<rparr>])]
     []
     [(JStr ''acme/app'',
       [\<lparr>date = Some \<lparr>year = 2025, month = 11, day = 25, hour = 8, minute = 0,
                      second = 0, microsecond = 0, utcoffset = Some 0\<rparr>,
         title = JStr ''Add parser'', state = ''merged'', url = JStr [], body = JStr [],
         merged = True\<rparr>])]
     [] ''gh_20251125'' False
   = Inr (join [nl]
       [''---'',
        ''period: 2025-11-20 to 2025-11-22'',
        ''source: gh_20251125'',
        ''commits: 2'',
        ''issues_created: 1'',
        ''issues_commented: 0'',
        ''prs_created: 1'',
        ''prs_reviewed: 0'',
        ''---'',
        [],
        ''# Weekly GitHub Activity'',
        [],
        ''## Commits (2)'', [], ''### acme/app'', ''- Fix bug (Nov 20)'', ''- Undated'', [],
        ''## Issues Created (1)'', [], ''### acme/app'', ''- Crash on start (Nov 22) [open]'', [],
        ''## Issues Commented (0)'', [], ''None'', [],
        ''## PRs Created (1)'', [], ''### acme/app'', ''- Add parser (Nov 25) [merged]'', [],
        ''## PRs Reviewed (0)'', [], ''None'', []])
   \<and> (\<exists>period rest.
        join [nl]
         [''---'',
          ''period: 2025-11-20 to 2025-11-22'',
          ''source: gh_20251125'',
          ''commits: 2'',
          ''issues_created: 1'',
          ''issues_commented: 0'',
          ''prs_created: 1'',
          ''prs_reviewed: 0'',
          ''---'',
          [],
          ''# Weekly GitHub Activity'',
          [],
          ''## Commits (2)'', [], ''### acme/app'', ''- Fix bug (Nov 20)'', ''- Undated'', [],
          ''## Issues Created (1)'', [], ''### acme/app'', ''- Crash on start (Nov 22) [open]'', [],
          ''## Issues Commented (0)'', [], ''None'', [],
          ''## PRs Created (1)'', [], ''### acme/app'', ''- Add parser (Nov 25) [merged]'', [],
          ''## PRs Reviewed (0)'', [], ''None'', []]
        = ''---'' @ [nl] @ ''period: '' @ period @ [nl] @ ''source: gh_20251125'' @ [nl] @ rest
        \<and> period \<noteq> ''unknown'')"
proof -
  let ?commits = "[(JStr ''acme/app'',
       [\<lparr>date = Some \<lparr>year = 2025, month = 11, day = 20, hour = 10, minute = 0,
                      second = 0, microsecond = 0, utcoffset = Some 0\<rparr>,
         message = ''Fix bug''\<rparr>,
        \<lparr>date = None, message = ''Undated''\<rparr>])]"
  let ?issues = "[(JStr ''acme/app'',
       [\<lparr>date = Some \<lparr>year = 2025, month = 11, day = 22, hour = 9, minute = 30,
                      second = 0, microsecond = 0, utcoffset = Some 0\<rparr>,
         title = JStr ''Crash on start'', state = ''open'', url = JStr [], body = JStr []\<rparr>])]"
  let ?prs = "[(JStr ''acme/app'',
       [\<lparr>date = Some \<lparr>year = 2025, month = 11, day = 25, hour = 8, minute = 0,
                      second = 0, microsecond = 0, utcoffset = Some 0\<rparr>,
         title = JStr ''Add parser'', state = ''merged'', url = JStr [], body = JStr [],
         merged = True\<rparr>])]"
  let ?doc = "join [nl]
       [''---'',
        ''period: 2025-11-20 to 2025-11-22'',
        ''source: gh_20251125'',
        ''commits: 2'',
        ''issues_created: 1'',
        ''issues_commented: 0'',
        ''prs_created: 1'',
        ''prs_reviewed: 0'',
        ''---'',
        [],
        ''# Weekly GitHub Activity'',
        [],
        ''## Commits (2)'', [], ''### acme/app'', ''- Fix bug (Nov 20)'', ''- Undated'', [],
        ''## Issues Created (1)'', [], ''### acme/app'', ''- Crash on start (Nov 22) [open]'', [],
        ''## Issues Commented (0)'', [], ''None'', [],
        ''## PRs Created (1)'', [], ''### acme/app'', ''- Add parser (Nov 25) [merged]'', [],
        ''## PRs Reviewed (0)'', [], ''None'', []]"
  have e: "generate_markdown repr_empty ?commits ?issues [] ?prs [] ''gh_20251125'' False
      = Inr ?doc"
    by (simp add: render_defs format_defs date_defs)
  have "\<lparr>year = 2025, month = 11, day = 22, hour = 9, minute = 30, second = 0,
      microsecond = 0, utcoffset = Some 0\<rparr> \<in> dates_found ?issues"
    by (simp add: dates_found_def)
  then have ne: "period_dates ?commits ?issues \<noteq> {}"
    unfolding period_dates_def by blast
  from period_line [OF e] obtain period rest
    where d: "?doc = ''---'' @ [nl] @ ''period: '' @ period @ [nl] @ ''source: ''
                @ ''gh_20251125'' @ [nl] @ rest"
      and u: "period = ''unknown'' \<longleftrightarrow> period_dates ?commits ?issues = {}"
    by blast
  from u ne have "period \<noteq> ''unknown''" by simp
  moreover from d have "?doc = ''---'' @ [nl] @ ''period: '' @ period @ [nl]
      @ ''source: gh_20251125'' @ [nl] @ rest"
    by simp
  ultimately have "\<exists>period rest.
      ?doc = ''---'' @ [nl] @ ''period: '' @ period @ [nl] @ ''source: gh_20251125'' @ [nl] @ rest
      \<and> period \<noteq> ''unknown''"
    by blast
  with e show ?thesis by (rule conjI)
qed

text \<open>
  The claim as stated says \<^verbatim>\<open>unknown\<close> exactly when no dated record exists
  anywhere. A dated pull request, with nothing else in the export, is a dated record, and
  the period is \<^verbatim>\<open>unknown\<close> all the same.
\<close>

theorem period_unknown_despite_dated_pr:
  "process_prs fromisoformat_plain
     (JArr [JObj [(''repository'', JObj [(''nameWithOwner'', JStr ''acme/app'')]),
                  (''title'', JStr ''Add parser''), (''state'', JStr ''OPEN''),
                  (''createdAt'', JStr ''2025-11-20T10:00:00Z'')]])
   = Inr [(JStr ''acme/app'',
           [\<lparr>date = Some \<lparr>year = 2025, month = 11, day = 20, hour = 10, minute = 0,
                          second = 0, microsecond = 0, utcoffset = Some 0\<rparr>,
             title = JStr ''Add parser'', state = ''open'', url = JStr [], body = JStr [],
             merged = False\<rparr>])]
   \<and> generate_markdown repr_empty [] [] []
       [(JStr ''acme/app'',
           [\<lparr>date = Some \<lparr>year = 2025, month = 11, day = 20, hour = 10, minute = 0,
                          second = 0, microsecond = 0, utcoffset = Some 0\<rparr>,
             title = JStr ''Add parser'', state = ''open'', url = JStr [], body = JStr [],
             merged = False\<rparr>])]
       [] ''gh_20251125'' False
   = Inr (join [nl]
       [''---'',
        ''period: unknown'',
        ''source: gh_20251125'',
        ''commits: 0'',
        ''issues_created: 0'',
        ''issues_commented: 0'',
        ''prs_created: 1'',
        ''prs_reviewed: 0'',
        ''---'',
        [],
        ''# Weekly GitHub Activity'',
        [],
        ''## Commits (0)'', [], ''None'', [],
        ''## Issues Created (0)'', [], ''None'', [],
        ''## Issues Commented (0)'', [], ''None'', [],
        ''## PRs Created (1)'', [], ''### acme/app'', ''- Add parser (Nov 20) [open]'', [],
        ''## PRs Reviewed (0)'', [], ''None'', []])"
proof -
  have a: "process_prs fromisoformat_plain
     (JArr [JObj [(''repository'', JObj [(''nameWithOwner'', JStr ''acme/app'')]),
                  (''title'', JStr ''Add parser''), (''state'', JStr ''OPEN''),
                  (''createdAt'', JStr ''2025-11-20T10:00:00Z'')]])
   = Inr [(JStr ''acme/app'',
           [\<lparr>date = Some \<lparr>year = 2025, month = 11, day = 20, hour = 10, minute = 0,
                          second = 0, microsecond = 0, utcoffset = Some 0\<rparr>,
             title = JStr ''Add parser'', state = ''open'', url = JStr [], body = JStr [],
             merged = False\<rparr>])]"
    by (simp add: process_prs_def pr_entry_def repo_of_def state_of_def parse_date_def
        replace_char_def parse_utc_example lower_defs sort_newest_first_def comparable_def)
  have b: "generate_markdown repr_empty [] [] []
       [(JStr ''acme/app'',
           [\<lparr>date = Some \<lparr>year = 2025, month = 11, day = 20, hour = 10, minute = 0,
                          second = 0, microsecond = 0, utcoffset = Some 0\<rparr>,
             title = JStr ''Add parser'', state = ''open'', url = JStr [], body = JStr [],
             merged = False\<rparr>])]
       [] ''gh_20251125'' False
   = Inr (join [nl]
       [''---'',
        ''period: unknown'',
        ''source: gh_20251125'',
        ''commits: 0'',
        ''issues_created: 0'',
        ''issues_commented: 0'',
        ''prs_created: 1'',
        ''prs_reviewed: 0'',
        ''---'',
        [],
        ''# Weekly GitHub Activity'',
        [],
        ''## Commits (0)'', [], ''None'', [],
        ''## Issues Created (0)'', [], ''None'', [],
        ''## Issues Commented (0)'', [], ''None'', [],
        ''## PRs Created (1)'', [], ''### acme/app'', ''- Add parser (Nov 20) [open]'', [],
        ''## PRs Reviewed (0)'', [], ''None'', []])"
    by (simp add: render_defs format_defs)
  from a b show ?thesis by (rule conjI)
qed

section \<open>The url of a record is never rendered\<close>

lemma map_of_same_but_url:
  assumes "list_all2 (\<lambda>kv kv'. fst kv = fst kv' \<and> (fst kv = ''url'' \<or> snd kv = snd kv')) kvs kvs'"
    and "k \<noteq> ''url''"
  shows "map_of kvs k = map_of kvs' k"
  using assms by (induction rule: list_all2_induct) auto

lemma py_get_same_but_url:
  assumes "same_but_url a b" and "k \<noteq> ''url''"
  shows "py_get a k d = py_get b k d"
proof (cases "a = b")
  case True
  then show ?thesis by simp
next
  case False
  with assms(1) obtain kvs kvs' where ab: "a = JObj kvs" "b = JObj kvs'"
    by (cases a; cases b) auto
  with assms show ?thesis by (simp add: map_of_same_but_url [of kvs kvs' k])
qed

lemma py_get_url_same_but_url:
  assumes "same_but_url a b"
  shows "(\<exists>u u'. py_get a ''url'' d = Inr u \<and> py_get b ''url'' d = Inr u')
       \<or> py_get a ''url'' d = py_get b ''url'' d"
proof (cases "a = b")
  case True
  then show ?thesis by simp
next
  case False
  with assms(1) obtain kvs kvs' where ab: "a = JObj kvs" "b = JObj kvs'"
    by (cases a; cases b) auto
  then show ?thesis by simp
qed

lemma commit_entry_same_but_url:
  assumes "same_but_url a b"
  shows "commit_entry f a = commit_entry f b"
  using py_get_same_but_url [OF assms, of "''repository''"]
    py_get_same_but_url [OF assms, of "''commit''"]
  by (simp add: commit_entry_def)

lemma repo_of_same_but_url: "same_but_url a b \<Longrightarrow> repo_of a = repo_of b"
  using py_get_same_but_url [of a b "''repository''"] by (simp add: repo_of_def)

lemma state_of_same_but_url: "same_but_url a b \<Longrightarrow> state_of a = state_of b"
  using py_get_same_but_url [of a b "''state''"] by (simp add: state_of_def)

lemma entry_upto_simps [simp]:
  "entry_upto h (Inl x) = Inl x"
  "entry_upto h (Inr (repo, r)) = Inr (repo, h r)"
  by (simp_all add: entry_upto_def)

lemma entry_upto_and_then:
  "entry_upto h (and_then m k) = and_then m (\<lambda>x. entry_upto h (k x))"
  by (cases m) simp_all

lemma entry_upto_if:
  "entry_upto h (if c then x else y) = (if c then entry_upto h x else entry_upto h y)"
  by simp

lemma issue_entry_same_but_url:
  assumes "same_but_url a b"
  shows "entry_upto forget_url (issue_entry f a) = entry_upto forget_url (issue_entry f b)"
proof -
  have g: "py_get a k d = py_get b k d" if "k \<noteq> ''url''" for k d
    using py_get_same_but_url [OF assms that] .
  from py_get_url_same_but_url [OF assms, of "JStr []"]
  show ?thesis
  proof
    assume "\<exists>u u'. py_get a ''url'' (JStr []) = Inr u \<and> py_get b ''url'' (JStr []) = Inr u'"
    then obtain u u' where u: "py_get a ''url'' (JStr []) = Inr u"
      "py_get b ''url'' (JStr []) = Inr u'" by blast
    show ?thesis
      unfolding issue_entry_def entry_upto_and_then entry_upto_if u
        repo_of_same_but_url [OF assms] state_of_same_but_url [OF assms]
        g [of "''createdAt''", simplified] g [of "''title''", simplified]
        g [of "''body''", simplified]
      by (simp add: forget_url_def cong: if_cong)
  next
    assume "py_get a ''url'' (JStr []) = py_get b ''url'' (JStr [])"
    then show ?thesis
      unfolding issue_entry_def
        repo_of_same_but_url [OF assms] state_of_same_but_url [OF assms]
        g [of "''createdAt''", simplified] g [of "''title''", simplified]
        g [of "''body''", simplified]
      by (simp cong: if_cong)
  qed
qed

lemma pr_entry_same_but_url:
  assumes "same_but_url a b"
  shows "entry_upto forget_url (pr_entry f a) = entry_upto forget_url (pr_entry f b)"
proof -
  have g: "py_get a k d = py_get b k d" if "k \<noteq> ''url''" for k d
    using py_get_same_but_url [OF assms that] .
  from py_get_url_same_but_url [OF assms, of "JStr []"]
  show ?thesis
  proof
    assume "\<exists>u u'. py_get a ''url'' (JStr []) = Inr u \<and> py_get b ''url'' (JStr []) = Inr u'"
    then obtain u u' where u: "py_get a ''url'' (JStr []) = Inr u"
      "py_get b ''url'' (JStr []) = Inr u'" by blast
    show ?thesis
      unfolding pr_entry_def entry_upto_and_then entry_upto_if u
        repo_of_same_but_url [OF assms] state_of_same_but_url [OF assms]
        g [of "''createdAt''", simplified] g [of "''title''", simplified]
        g [of "''body''", simplified]
      by (simp add: forget_url_def cong: if_cong)
  next
    assume "py_get a ''url'' (JStr []) = py_get b ''url'' (JStr [])"
    then show ?thesis
      unfolding pr_entry_def
        repo_of_same_but_url [OF assms] state_of_same_but_url [OF assms]
        g [of "''createdAt''", simplified] g [of "''title''", simplified]
        g [of "''body''", simplified]
      by (simp cong: if_cong)
  qed
qed

lemma groups_upto_simps [simp]:
  "groups_upto h (Inl e) = Inl e"
  "groups_upto h (Inr g) = Inr (map_groups h g)"
  by (simp_all add: groups_upto_def)

lemma map_groups_simps [simp]:
  "map_groups h [] = []"
  "map_groups h ((repo, items) # g) = (repo, map h items) # map_groups h g"
  by (simp_all add: map_groups_def)

lemma dict_append_map_groups:
  "map_groups h (dict_append k r g) = dict_append k (h r) (map_groups h g)"
  by (induction g) auto

lemma group_items_upto:
  assumes "list_all2 (\<lambda>x y. entry_upto h (entry x) = entry_upto h (entry' y)) xs ys"
    and "map_groups h g = map_groups h g'"
  shows "groups_upto h (group_items entry xs g) = groups_upto h (group_items entry' ys g')"
  using assms
proof (induction arbitrary: g g' rule: list_all2_induct)
  case Nil
  then show ?case by simp
next
  case (Cons x xs y ys)
  show ?case
  proof (cases "entry x")
    case (Inl e)
    with Cons.hyps(1) have "entry' y = Inl e" by (cases "entry' y") auto
    with Inl show ?thesis by simp
  next
    case (Inr kr)
    obtain k r where kr: "kr = (k, r)" by (cases kr)
    with Inr Cons.hyps(1) obtain r' where y: "entry' y = Inr (k, r')" and hr: "h r = h r'"
      by (cases "entry' y") auto
    have "map_groups h (dict_append k r g) = map_groups h (dict_append k r' g')"
      using Cons.prems hr by (simp add: dict_append_map_groups)
    from Cons.IH [OF this] Inr kr y show ?thesis by simp
  qed
qed

lemma insort_key_map: "insort_key f (h x) (map h ys) = map h (insort_key (\<lambda>z. f (h z)) x ys)"
  by (induction ys) auto

lemma sort_key_map: "sort_key f (map h xs) = map h (sort_key (\<lambda>z. f (h z)) xs)"
  by (induction xs) (simp_all add: insort_key_map)

lemma sort_newest_first_map:
  assumes "\<And>x. date (h x) = date x"
  shows "sort_newest_first (map h items)
     = (case sort_newest_first items of Inl e \<Rightarrow> Inl e | Inr ys \<Rightarrow> Inr (map h ys))"
proof -
  have k: "sort_key_of (h x) = sort_key_of x" for x
    by (simp add: sort_key_of_def assms)
  have m: "map sort_key_of (map h items) = map sort_key_of items"
    by (simp add: k)
  have r: "rev (sort_key (\<lambda>x. instant (sort_key_of x)) (rev (map h items)))
      = map h (rev (sort_key (\<lambda>x. instant (sort_key_of x)) (rev items)))"
  proof -
    have "sort_key (\<lambda>x. instant (sort_key_of x)) (rev (map h items))
        = sort_key (\<lambda>x. instant (sort_key_of x)) (map h (rev items))"
      by (simp only: rev_map)
    also have "\<dots> = map h (sort_key (\<lambda>z. instant (sort_key_of (h z))) (rev items))"
      by (rule sort_key_map)
    also have "\<dots> = map h (sort_key (\<lambda>x. instant (sort_key_of x)) (rev items))"
      by (simp only: k)
    finally show ?thesis by (simp only: rev_map)
  qed
  show ?thesis unfolding sort_newest_first_def m r by simp
qed

lemma sort_groups_map:
  assumes "\<And>x. date (h x) = date x"
  shows "sort_groups (map_groups h g) = groups_upto h (sort_groups g)"
proof (induction g)
  case Nil
  show ?case by simp
next
  case (Cons a g)
  obtain repo items where a: "a = (repo, items)" by (cases a)
  show ?case
  proof (cases "sort_newest_first items")
    case (Inl e)
    with a show ?thesis by (simp add: sort_newest_first_map [of h, OF assms])
  next
    case (Inr ys)
    with a Cons show ?thesis
      by (cases "sort_groups g") (simp_all add: sort_newest_first_map [of h, OF assms])
  qed
qed

lemma classify_upto:
  assumes "\<And>x. date (h x) = date x"
    and "groups_upto h m = groups_upto h m'"
  shows "groups_upto h (and_then m sort_groups) = groups_upto h (and_then m' sort_groups)"
proof (cases m)
  case (Inl e)
  with assms(2) have "m' = Inl e" by (cases m') auto
  with Inl show ?thesis by simp
next
  case (Inr g)
  with assms(2) obtain g' where m': "m' = Inr g'" and gg: "map_groups h g = map_groups h g'"
    by (cases m') auto
  have "groups_upto h (sort_groups g) = groups_upto h (sort_groups g')"
    using sort_groups_map [of h g, OF assms(1)] sort_groups_map [of h g', OF assms(1)] gg
    by simp
  with Inr m' show ?thesis by simp
qed

lemma date_forget_url [simp]: "date (forget_url r) = date r"
  by (simp add: forget_url_def)

lemma process_commits_variant:
  assumes "url_variant d d'"
  shows "process_commits f d = process_commits f d'"
proof (cases "d = d'")
  case True
  then show ?thesis by simp
next
  case False
  with assms obtain xs ys where d: "d = JArr xs" "d' = JArr ys"
    and rel: "list_all2 same_but_url xs ys"
    by (cases d; cases d') auto
  from rel have "list_all2 (\<lambda>x y. entry_upto id (commit_entry f x) = entry_upto id (commit_entry f y)) xs ys"
    by (rule list_all2_mono) (simp add: commit_entry_same_but_url)
  from group_items_upto [OF this, of "[]" "[]"]
  have "groups_upto id (group_items (commit_entry f) xs []) = groups_upto id (group_items (commit_entry f) ys [])"
    by simp
  moreover have "groups_upto id m = m" for m :: "error + (json \<times> commit list) list"
    by (cases m) (simp_all add: map_groups_def)
  ultimately have "group_items (commit_entry f) xs [] = group_items (commit_entry f) ys []"
    by simp
  with d show ?thesis by (simp add: process_commits_def)
qed

lemma process_issues_variant:
  assumes "url_variant d d'"
  shows "groups_upto forget_url (process_issues f d) = groups_upto forget_url (process_issues f d')"
proof (cases "d = d'")
  case True
  then show ?thesis by simp
next
  case False
  with assms obtain xs ys where d: "d = JArr xs" "d' = JArr ys"
    and rel: "list_all2 same_but_url xs ys"
    by (cases d; cases d') auto
  from rel have "list_all2 (\<lambda>x y. entry_upto forget_url (issue_entry f x)
      = entry_upto forget_url (issue_entry f y)) xs ys"
    by (rule list_all2_mono) (simp add: issue_entry_same_but_url)
  from group_items_upto [OF this, of "[]" "[]"]
  have "groups_upto forget_url (group_items (issue_entry f) xs [])
      = groups_upto forget_url (group_items (issue_entry f) ys [])"
    by simp
  from classify_upto [of forget_url, OF date_forget_url this] d
  show ?thesis by (simp add: process_issues_def)
qed

lemma process_prs_variant:
  assumes "url_variant d d'"
  shows "groups_upto forget_url (process_prs f d) = groups_upto forget_url (process_prs f d')"
proof (cases "d = d'")
  case True
  then show ?thesis by simp
next
  case False
  with assms obtain xs ys where d: "d = JArr xs" "d' = JArr ys"
    and rel: "list_all2 same_but_url xs ys"
    by (cases d; cases d') auto
  from rel have "list_all2 (\<lambda>x y. entry_upto forget_url (pr_entry f x)
      = entry_upto forget_url (pr_entry f y)) xs ys"
    by (rule list_all2_mono) (simp add: pr_entry_same_but_url)
  from group_items_upto [OF this, of "[]" "[]"]
  have "groups_upto forget_url (group_items (pr_entry f) xs [])
      = groups_upto forget_url (group_items (pr_entry f) ys [])"
    by simp
  from classify_upto [of forget_url, OF date_forget_url this] d
  show ?thesis by (simp add: process_prs_def)
qed

lemma map_fst_map_groups [simp]: "map fst (map_groups h g) = map fst g"
  by (induction g) auto

lemma map_groups_Nil_iff [simp]: "map_groups h g = [] \<longleftrightarrow> g = []"
  by (cases g) auto

lemma dict_items_map_groups [simp]: "dict_items (map_groups h g) k = map h (dict_items g k)"
  by (induction g) auto

lemma map_err_map: "map_err f (map h xs) = map_err (\<lambda>x. f (h x)) xs"
  by (induction xs) simp_all

lemma repo_block_map_groups:
  "repo_block repr item_lines (map_groups h g) = repo_block repr (\<lambda>r. item_lines (h r)) g"
  by (rule ext) (simp add: repo_block_def map_err_map)

lemma section_lines_map_groups:
  "section_lines repr item_lines (map_groups h g) = section_lines repr (\<lambda>r. item_lines (h r)) g"
  by (simp add: section_lines_def repo_block_map_groups)

lemma present_dates_map:
  "(\<And>x. date (h x) = date x) \<Longrightarrow> present_dates (map h items) = present_dates items"
  by (simp add: present_dates_def comp_def)

lemma all_dates_of_map_groups:
  assumes "\<And>x. date (h x) = date x"
  shows "all_dates_of commits (map_groups h g) = all_dates_of commits g"
proof -
  have "concat (map (\<lambda>(repo, repo_items). present_dates repo_items) (map_groups h g))
      = concat (map (\<lambda>(repo, repo_items). present_dates repo_items) g)"
    by (induction g) (auto simp: present_dates_map [of h, OF assms])
  then show ?thesis by (simp add: all_dates_of_def)
qed

lemma total_count_map_groups [simp]: "total_count (map_groups h g) = total_count g"
  by (induction g) (auto simp: total_count_def)

lemma lines_forget_url [simp]:
  "issue_created_lines repr include_body (forget_url r) = issue_created_lines repr include_body r"
  "issue_commented_lines repr (forget_url r) = issue_commented_lines repr r"
  "pr_created_lines repr include_body (forget_url p) = pr_created_lines repr include_body p"
  by (simp_all add: issue_created_lines_def issue_created_line_def issue_commented_lines_def
      pr_created_lines_def pr_created_line_def pr_state_part_def forget_url_def)

lemma generate_markdown_forget_url:
  "generate_markdown repr commits (map_groups forget_url issues_created)
     (map_groups forget_url issues_commented) (map_groups forget_url prs_created)
     (map_groups forget_url prs_reviewed) dir_name include_body
   = generate_markdown repr commits issues_created issues_commented prs_created prs_reviewed
       dir_name include_body"
  by (simp add: generate_markdown_def markdown_lines_def section_lines_map_groups
      all_dates_of_map_groups [of forget_url, OF date_forget_url])

lemma and_then_upto:
  assumes "groups_upto h m = groups_upto h m'"
    and "\<And>g g'. map_groups h g = map_groups h g' \<Longrightarrow> k g = k' g'"
  shows "and_then m k = and_then m' k'"
proof (cases m)
  case (Inl e)
  with assms(1) have "m' = Inl e" by (cases m') auto
  with Inl show ?thesis by simp
next
  case (Inr g)
  with assms(1) obtain g' where "m' = Inr g'" "map_groups h g = map_groups h g'"
    by (cases m') auto
  with Inr assms(2) show ?thesis by simp
qed

text \<open>
  C10. Two exports whose five collections differ only in the url values of their items
  give the same result: the same document, or the same exception.
\<close>

theorem url_independence:
  assumes "url_variant commits_data commits_data'"
    and "url_variant issues_created_data issues_created_data'"
    and "url_variant issues_commented_data issues_commented_data'"
    and "url_variant prs_created_data prs_created_data'"
    and "url_variant prs_reviewed_data prs_reviewed_data'"
  shows "digest fromisoformat repr commits_data issues_created_data issues_commented_data
           prs_created_data prs_reviewed_data dir_name include_body
       = digest fromisoformat repr commits_data' issues_created_data' issues_commented_data'
           prs_created_data' prs_reviewed_data' dir_name include_body"
proof -
  have render: "generate_markdown repr c ic icm pc pv dir_name include_body
      = generate_markdown repr c ic' icm' pc' pv' dir_name include_body"
    if "map_groups forget_url ic = map_groups forget_url ic'"
      and "map_groups forget_url icm = map_groups forget_url icm'"
      and "map_groups forget_url pc = map_groups forget_url pc'"
      and "map_groups forget_url pv = map_groups forget_url pv'"
    for c and ic ic' icm icm' :: "(json \<times> issue list) list"
      and pc pc' pv pv' :: "(json \<times> pr list) list"
    using generate_markdown_forget_url [of repr c ic icm pc pv dir_name include_body]
      generate_markdown_forget_url [of repr c ic' icm' pc' pv' dir_name include_body] that
    by simp
  show ?thesis
    unfolding digest_def process_commits_variant [OF assms(1), of fromisoformat]
    apply (rule arg_cong [where f = "and_then (process_commits fromisoformat commits_data')"])
    apply (rule ext)
    apply (rule and_then_upto [OF process_issues_variant [OF assms(2)]])
    apply (rule and_then_upto [OF process_issues_variant [OF assms(3)]])
    apply (rule and_then_upto [OF process_prs_variant [OF assms(4)]])
    apply (rule and_then_upto [OF process_prs_variant [OF assms(5)]])
    apply (rule render)
       apply assumption+
    done
qed

theorem url_independence_witness:
  "url_variant
     (JArr [JObj [(''title'', JStr ''Crash on start''), (''state'', JStr ''OPEN''),
                  (''url'', JStr ''https://github.com/acme/app/issues/1'')]])
     (JArr [JObj [(''title'', JStr ''Crash on start''), (''state'', JStr ''OPEN''),
                  (''url'', JNull)]])
   \<and> digest fromisoformat_plain repr_empty (JArr [])
       (JArr [JObj [(''title'', JStr ''Crash on start''), (''state'', JStr ''OPEN''),
                    (''url'', JStr ''https://github.com/acme/app/issues/1'')]])
       (JArr []) (JArr []) (JArr []) ''gh_20251125'' True
     = digest fromisoformat_plain repr_empty (JArr [])
       (JArr [JObj [(''title'', JStr ''Crash on start''), (''state'', JStr ''OPEN''),
                    (''url'', JNull)]])
       (JArr []) (JArr []) (JArr []) ''gh_20251125'' True"
proof -
  have v: "url_variant
     (JArr [JObj [(''title'', JStr ''Crash on start''), (''state'', JStr ''OPEN''),
                  (''url'', JStr ''https://github.com/acme/app/issues/1'')]])
     (JArr [JObj [(''title'', JStr ''Crash on start''), (''state'', JStr ''OPEN''),
                  (''url'', JNull)]])"
    by simp
  have e: "url_variant (JArr []) (JArr [])" by simp
  from v url_independence [OF e v e e e] show ?thesis by (rule conjI)
qed

section \<open>The order of the repositories in a section\<close>

lemma headings_append [simp]: "headings (xs @ ys) = headings xs @ headings ys"
  by (simp add: headings_def)

lemma headings_no_heading: "list_all (\<lambda>x. \<not> is_heading x) ls \<Longrightarrow> headings ls = []"
  by (induction ls) (simp_all add: headings_def)

lemma map_err_Inr:
  "map_err f xs = Inr ys \<Longrightarrow> list_all2 (\<lambda>x y. f x = Inr y) xs ys"
proof (induction xs arbitrary: ys)
  case Nil
  then show ?case by simp
next
  case (Cons x xs)
  from Cons.prems obtain y where y: "f x = Inr y"
    and r: "and_then (map_err f xs) (\<lambda>ys. Inr (y # ys)) = Inr ys"
    unfolding map_err.simps by (rule and_then_InrE)
  from r obtain ys' where ys': "map_err f xs = Inr ys'" and e: "Inr (y # ys') = (Inr ys :: error + _ list)"
    by (rule and_then_InrE)
  from Cons.IH [OF ys'] y e show ?case by auto
qed

lemma headings_concat_items:
  assumes "\<And>r l. item_lines r = Inr l \<Longrightarrow> list_all (\<lambda>x. \<not> is_heading x) l"
    and "map_err item_lines rs = Inr ls"
  shows "headings (concat ls) = []"
proof -
  from map_err_Inr [OF assms(2)] have "list_all2 (\<lambda>x y. item_lines x = Inr y) rs ls" .
  then have "\<forall>l\<in>set ls. list_all (\<lambda>x. \<not> is_heading x) l"
    using assms(1) by (induction rule: list_all2_induct) auto
  then have "list_all (\<lambda>x. \<not> is_heading x) (concat ls)"
    by (induction ls) auto
  then show ?thesis by (rule headings_no_heading)
qed

lemma headings_repo_block:
  assumes "\<And>r l. item_lines r = Inr l \<Longrightarrow> list_all (\<lambda>x. \<not> is_heading x) l"
    and "repo_block repr item_lines grouped repo = Inr b"
  shows "headings b = [''### '' @ py_str repr repo]"
proof -
  from assms(2) [unfolded repo_block_def]
  obtain ls where ls: "map_err item_lines (dict_items grouped repo) = Inr ls"
    and b: "Inr ((''### '' @ py_str repr repo) # concat ls @ [[]]) = (Inr b :: error + string list)"
    by (rule and_then_InrE)
  from b have "b = [''### '' @ py_str repr repo] @ concat ls @ [[]]" by simp
  then have "headings b = headings [''### '' @ py_str repr repo] @ headings (concat ls) @ headings [[]]"
    by (simp only: headings_append)
  with headings_concat_items [OF assms(1) ls] show ?thesis
    by (simp add: headings_def is_heading_def)
qed

lemma headings_blocks:
  assumes "\<And>r l. item_lines r = Inr l \<Longrightarrow> list_all (\<lambda>x. \<not> is_heading x) l"
    and "map_err (repo_block repr item_lines grouped) repos = Inr blocks"
  shows "headings (concat blocks) = map (\<lambda>repo. ''### '' @ py_str repr repo) repos"
proof -
  from map_err_Inr [OF assms(2)]
  have "list_all2 (\<lambda>repo b. repo_block repr item_lines grouped repo = Inr b) repos blocks" .
  then show ?thesis
  proof (induction rule: list_all2_induct)
    case Nil
    show ?case by (simp add: headings_def)
  next
    case (Cons repo repos b blocks)
    from headings_repo_block [OF assms(1) Cons.hyps(1)] Cons.IH show ?case by simp
  qed
qed

lemma sorted_keys_strings:
  "list_all is_str ks \<Longrightarrow> sorted_keys ks = Inr (sort_key str_val ks)"
  by (simp add: sorted_keys_def)

lemma py_str_string: "is_str k \<Longrightarrow> py_str repr k = str_val k"
  by (cases k) (simp_all add: py_str_def)

lemma map_str_val_sort_key:
  "map str_val (sort_key str_val ks) = sort (map str_val ks)"
  by (rule properties_for_sort [symmetric]) (simp_all add: sorted_sort_key)

lemma headings_section:
  assumes "\<And>r l. item_lines r = Inr l \<Longrightarrow> list_all (\<lambda>x. \<not> is_heading x) l"
    and "section_lines repr item_lines grouped = Inr ls"
    and "list_all is_str (map fst grouped)"
  shows "headings ls = map (\<lambda>k. ''### '' @ k) (sort (map (\<lambda>kv. str_val (fst kv)) grouped))"
proof (cases "grouped = []")
  case True
  with assms(2) show ?thesis by (auto simp: section_lines_def headings_def is_heading_def)
next
  case False
  let ?repos = "sort_key str_val (map fst grouped)"
  from assms(2) False assms(3)
  have "and_then (map_err (repo_block repr item_lines grouped) ?repos)
      (\<lambda>blocks. Inr (concat blocks)) = Inr ls"
    by (simp add: section_lines_def sorted_keys_strings)
  then obtain blocks where bl: "map_err (repo_block repr item_lines grouped) ?repos = Inr blocks"
    and c: "Inr (concat blocks) = (Inr ls :: error + string list)"
    by (rule and_then_InrE)
  from assms(3) have "\<forall>k\<in>set ?repos. is_str k" by (simp add: list_all_iff)
  then have "map (\<lambda>repo. ''### '' @ py_str repr repo) ?repos
      = map (\<lambda>k. ''### '' @ k) (map str_val ?repos)"
    by (simp add: py_str_string)
  also have "map str_val ?repos = sort (map str_val (map fst grouped))"
    by (rule map_str_val_sort_key)
  finally have "map (\<lambda>repo. ''### '' @ py_str repr repo) ?repos
      = map (\<lambda>k. ''### '' @ k) (sort (map (\<lambda>kv. str_val (fst kv)) grouped))"
    by (simp add: comp_def)
  with headings_blocks [OF assms(1) bl] c show ?thesis by simp
qed

lemma commit_lines_no_heading:
  "commit_lines r = Inr l \<Longrightarrow> list_all (\<lambda>x. \<not> is_heading x) l"
  by (auto simp: commit_lines_def is_heading_def)

lemma issue_commented_lines_no_heading:
  "issue_commented_lines repr r = Inr l \<Longrightarrow> list_all (\<lambda>x. \<not> is_heading x) l"
  by (auto simp: issue_commented_lines_def is_heading_def)

lemma body_lines_no_heading:
  assumes "body_lines include_body b = Inr l"
  shows "list_all (\<lambda>x. \<not> is_heading x) l"
proof -
  have "l = [] \<or> (\<exists>ls. l = map (\<lambda>line. ''  > '' @ line) ls)"
    using assms by (auto simp: body_lines_def format_body_def split: if_splits json.splits)
  then show ?thesis by (auto simp: list_all_iff is_heading_def)
qed

lemma issue_created_lines_no_heading:
  assumes "issue_created_lines repr include_body r = Inr l"
  shows "list_all (\<lambda>x. \<not> is_heading x) l"
proof -
  from assms [unfolded issue_created_lines_def]
  obtain q where q: "body_lines include_body (body r) = Inr q"
    and l: "Inr (issue_created_line repr r # q) = (Inr l :: error + string list)"
    by (rule and_then_InrE)
  from l body_lines_no_heading [OF q] show ?thesis
    by (auto simp: issue_created_line_def is_heading_def)
qed

lemma pr_created_lines_no_heading:
  assumes "pr_created_lines repr include_body r = Inr l"
  shows "list_all (\<lambda>x. \<not> is_heading x) l"
proof -
  from assms [unfolded pr_created_lines_def]
  obtain q where q: "body_lines include_body (body r) = Inr q"
    and l: "Inr (pr_created_line repr r # q) = (Inr l :: error + string list)"
    by (rule and_then_InrE)
  from l body_lines_no_heading [OF q] show ?thesis
    by (auto simp: pr_created_line_def is_heading_def)
qed

lemma norm_keys_dict_append:
  "map (\<lambda>kv. key_norm (fst kv)) (dict_append k r g)
   = (if key_norm k \<in> set (map (\<lambda>kv. key_norm (fst kv)) g)
      then map (\<lambda>kv. key_norm (fst kv)) g
      else map (\<lambda>kv. key_norm (fst kv)) g @ [key_norm k])"
proof (induction g)
  case Nil
  show ?case by simp
next
  case (Cons a g)
  obtain k' rs where a: "a = (k', rs)" by (cases a)
  show ?case
  proof (cases "key_norm k = key_norm k'")
    case True
    with a show ?thesis by (simp add: key_eq_def)
  next
    case False
    with a Cons show ?thesis by (simp add: key_eq_def)
  qed
qed

lemma norm_keys_group_items:
  assumes "group_items entry items g0 = Inr g"
  shows "set (map (\<lambda>kv. key_norm (fst kv)) g)
      = set (map (\<lambda>kv. key_norm (fst kv)) g0)
        \<union> key_norm ` {k. \<exists>x\<in>set items. \<exists>r. entry x = Inr (k, r)}
    \<and> (distinct (map (\<lambda>kv. key_norm (fst kv)) g0) \<longrightarrow> distinct (map (\<lambda>kv. key_norm (fst kv)) g))"
  using assms
proof (induction items arbitrary: g0)
  case Nil
  then show ?case by simp
next
  case (Cons x xs)
  from Cons.prems [unfolded group_items.simps]
  obtain kr where kr: "entry x = Inr kr"
    and rest: "(case kr of (repo, r) \<Rightarrow> group_items entry xs (dict_append repo r g0)) = Inr g"
    by (rule and_then_InrE)
  obtain k r where krv: "kr = (k, r)" by (cases kr)
  with rest have rest': "group_items entry xs (dict_append k r g0) = Inr g" by simp
  note ih = Cons.IH [OF rest']
  have s: "set (map (\<lambda>kv. key_norm (fst kv)) (dict_append k r g0))
      = insert (key_norm k) (set (map (\<lambda>kv. key_norm (fst kv)) g0))"
    by (auto simp: norm_keys_dict_append)
  have d: "distinct (map (\<lambda>kv. key_norm (fst kv)) g0)
      \<Longrightarrow> distinct (map (\<lambda>kv. key_norm (fst kv)) (dict_append k r g0))"
    by (simp add: norm_keys_dict_append)
  have e: "{k'. \<exists>y\<in>set (x # xs). \<exists>r'. entry y = Inr (k', r')}
      = insert k {k'. \<exists>y\<in>set xs. \<exists>r'. entry y = Inr (k', r')}"
    using kr krv by auto
  from ih s d show ?case unfolding e by auto
qed

lemma sort_groups_keys: "sort_groups g = Inr g' \<Longrightarrow> map fst g' = map fst g"
proof (induction g arbitrary: g')
  case Nil
  then show ?case by simp
next
  case (Cons a g)
  obtain repo items where a: "a = (repo, items)" by (cases a)
  from Cons.prems [unfolded a sort_groups.simps]
  obtain s where "sort_newest_first items = Inr s"
    and r: "and_then (sort_groups g) (\<lambda>g'. Inr ((repo, s) # g')) = Inr g'"
    by (rule and_then_InrE)
  from r obtain g2 where g2: "sort_groups g = Inr g2"
    and e: "Inr ((repo, s) # g2) = (Inr g' :: error + _ list)"
    by (rule and_then_InrE)
  from Cons.IH [OF g2] e a show ?case by auto
qed

lemma is_str_key_norm [simp]: "is_str (key_norm k) = is_str k"
  by (cases k) simp_all

lemma key_norm_string: "is_str k \<Longrightarrow> key_norm k = k"
  by (cases k) simp_all

lemma classifier_keys:
  assumes "and_then (group_items entry items []) sort_groups = Inr grouped"
  shows "set (map (\<lambda>kv. key_norm (fst kv)) grouped)
      = key_norm ` {k. \<exists>x\<in>set items. \<exists>r. entry x = Inr (k, r)}
    \<and> distinct (map (\<lambda>kv. key_norm (fst kv)) grouped)"
proof -
  from assms obtain g where g: "group_items entry items [] = Inr g"
    and s: "sort_groups g = Inr grouped"
    by (rule and_then_InrE)
  have "map (\<lambda>kv. key_norm (fst kv)) grouped = map key_norm (map fst grouped)"
    by (simp add: comp_def)
  also have "\<dots> = map key_norm (map fst g)"
    by (simp only: sort_groups_keys [OF s])
  also have "\<dots> = map (\<lambda>kv. key_norm (fst kv)) g"
    by (simp add: comp_def)
  finally have "map (\<lambda>kv. key_norm (fst kv)) grouped = map (\<lambda>kv. key_norm (fst kv)) g" .
  with norm_keys_group_items [OF g] show ?thesis by simp
qed

lemma string_keys_norm:
  assumes "list_all is_str (map fst grouped)"
  shows "map (\<lambda>kv. key_norm (fst kv)) grouped = map fst grouped"
  using assms by (induction grouped) (auto simp: key_norm_string)

lemma permuted_keys:
  assumes g: "and_then (group_items entry items []) sort_groups = Inr grouped"
    and g': "and_then (group_items entry items' []) sort_groups = Inr grouped'"
    and perm: "mset items' = mset items"
    and str: "list_all is_str (map fst grouped)"
  shows "list_all is_str (map fst grouped') \<and> mset (map fst grouped') = mset (map fst grouped)"
proof -
  from perm have si: "set items' = set items" by (rule mset_eq_setD)
  from classifier_keys [OF g] classifier_keys [OF g'] si
  have eq: "set (map (\<lambda>kv. key_norm (fst kv)) grouped') = set (map (\<lambda>kv. key_norm (fst kv)) grouped)"
    and d: "distinct (map (\<lambda>kv. key_norm (fst kv)) grouped)"
    and d': "distinct (map (\<lambda>kv. key_norm (fst kv)) grouped')"
    by simp_all
  have "is_str (fst kv)" if "kv \<in> set grouped'" for kv
  proof -
    from that have "key_norm (fst kv) \<in> set (map (\<lambda>kv. key_norm (fst kv)) grouped')"
      by simp
    with eq have "key_norm (fst kv) \<in> set (map fst grouped)"
      unfolding string_keys_norm [OF str] by simp
    then obtain x where x: "x \<in> set grouped" "key_norm (fst kv) = fst x" by auto
    from str x(1) have "is_str (fst x)" by (simp add: list_all_iff)
    with x(2) have "is_str (key_norm (fst kv))" by simp
    then show ?thesis by simp
  qed
  then have "\<forall>kv\<in>set grouped'. is_str (fst kv)" by blast
  then have str': "list_all is_str (map fst grouped')"
    by (simp add: list_all_iff)
  from eq d d' have "set (map fst grouped') = set (map fst grouped)"
    and "distinct (map fst grouped)" and "distinct (map fst grouped')"
    unfolding string_keys_norm [OF str] string_keys_norm [OF str'] by simp_all
  then have "mset (map fst grouped') = mset (map fst grouped)"
    using set_eq_iff_mset_eq_distinct by blast
  with str' show ?thesis by simp
qed

text \<open>
  C8. A classifier is the loop over the items followed by the sort of the groups; the
  lines of a section come from the loop over the sorted keys. When the repository
  identifiers are strings,
  the headings of a rendered section are the identifiers in lexicographic order; and a
  run on the same items in another order, which populates the mapping in another order,
  renders the same headings in the same order. (The lines of a record are never
  headings: that holds for each of the five sections of the renderer.)
\<close>

theorem repositories_in_lexicographic_order:
  assumes "and_then (group_items entry items []) sort_groups = Inr grouped"
    and "and_then (group_items entry items' []) sort_groups = Inr grouped'"
    and "mset items' = mset items"
    and "list_all is_str (map fst grouped)"
    and "section_lines repr item_lines grouped = Inr ls"
    and "section_lines repr item_lines grouped' = Inr ls'"
    and "\<And>r l. item_lines r = Inr l \<Longrightarrow> list_all (\<lambda>x. \<not> is_heading x) l"
  shows "headings ls = map (\<lambda>k. ''### '' @ k) (sort (map (\<lambda>kv. str_val (fst kv)) grouped))
       \<and> headings ls' = headings ls"
proof -
  from permuted_keys [OF assms(1-4)]
  have str': "list_all is_str (map fst grouped')"
    and ms: "mset (map fst grouped') = mset (map fst grouped)"
    by simp_all
  from ms have "mset (map str_val (map fst grouped')) = mset (map str_val (map fst grouped))"
    by (metis mset_map)
  then have "mset (map (\<lambda>kv. str_val (fst kv)) grouped') = mset (map (\<lambda>kv. str_val (fst kv)) grouped)"
    by (simp add: comp_def)
  then have "sort (map (\<lambda>kv. str_val (fst kv)) grouped') = sort (map (\<lambda>kv. str_val (fst kv)) grouped)"
    by (intro properties_for_sort) simp_all
  with headings_section [OF assms(7) assms(5) assms(4)] headings_section [OF assms(7) assms(6) str']
  show ?thesis by simp
qed

theorem repositories_in_lexicographic_order_witness:
  "and_then (group_items (commit_entry fromisoformat_plain)
       [JObj [(''repository'', JObj [(''name'', JStr ''zeta/app'')]),
              (''commit'', JObj [(''message'', JStr ''Fix bug'')])],
        JObj [(''repository'', JObj [(''name'', JStr ''acme/app'')]),
              (''commit'', JObj [(''message'', JStr ''Add parser'')])]] [])
     sort_groups
   = Inr [(JStr ''zeta/app'', [\<lparr>date = None, message = ''Fix bug''\<rparr>]),
          (JStr ''acme/app'', [\<lparr>date = None, message = ''Add parser''\<rparr>])]
   \<and> section_lines repr_empty commit_lines
       [(JStr ''zeta/app'', [\<lparr>date = None, message = ''Fix bug''\<rparr>]),
        (JStr ''acme/app'', [\<lparr>date = None, message = ''Add parser''\<rparr>])]
     = Inr [''### acme/app'', ''- Add parser'', [], ''### zeta/app'', ''- Fix bug'', []]
   \<and> headings [''### acme/app'', ''- Add parser'', [], ''### zeta/app'', ''- Fix bug'', []]
     = [''### acme/app'', ''### zeta/app'']"
proof -
  let ?z = "JObj [(''repository'', JObj [(''name'', JStr ''zeta/app'')]),
              (''commit'', JObj [(''message'', JStr ''Fix bug'')])]"
  let ?a = "JObj [(''repository'', JObj [(''name'', JStr ''acme/app'')]),
              (''commit'', JObj [(''message'', JStr ''Add parser'')])]"
  let ?G = "[(JStr ''zeta/app'', [\<lparr>date = None, message = ''Fix bug''\<rparr>]),
          (JStr ''acme/app'', [\<lparr>date = None, message = ''Add parser''\<rparr>])]"
  let ?G' = "[(JStr ''acme/app'', [\<lparr>date = None, message = ''Add parser''\<rparr>]),
          (JStr ''zeta/app'', [\<lparr>date = None, message = ''Fix bug''\<rparr>])]"
  let ?L = "[''### acme/app'', ''- Add parser'', [], ''### zeta/app'', ''- Fix bug'', []]"
  have ez: "commit_entry fromisoformat_plain ?z
      = Inr (JStr ''zeta/app'', \<lparr>date = None, message = ''Fix bug''\<rparr>)"
    by (simp add: commit_entry_def get_first_line_def parse_date_def nl_def strip_defs)
  have ea: "commit_entry fromisoformat_plain ?a
      = Inr (JStr ''acme/app'', \<lparr>date = None, message = ''Add parser''\<rparr>)"
    by (simp add: commit_entry_def get_first_line_def parse_date_def nl_def strip_defs)
  have g: "and_then (group_items (commit_entry fromisoformat_plain) [?z, ?a] []) sort_groups
      = Inr ?G"
    by (simp add: ez ea key_eq_def sort_newest_first_def comparable_def)
  have g': "and_then (group_items (commit_entry fromisoformat_plain) [?a, ?z] []) sort_groups
      = Inr ?G'"
    by (simp add: ez ea key_eq_def sort_newest_first_def comparable_def)
  have p: "mset [?a, ?z] = mset [?z, ?a]" by simp
  have s: "list_all is_str (map fst ?G)" by simp
  have l: "section_lines repr_empty commit_lines ?G = Inr ?L"
    by (simp add: section_lines_def sorted_keys_def repo_block_def commit_lines_def key_eq_def
        py_str_def date_part_def format_date_def)
  have l': "section_lines repr_empty commit_lines ?G' = Inr ?L"
    by (simp add: section_lines_def sorted_keys_def repo_block_def commit_lines_def key_eq_def
        py_str_def date_part_def format_date_def)
  from repositories_in_lexicographic_order [OF g g' p s l l' commit_lines_no_heading]
  have "headings ?L = map (\<lambda>k. ''### '' @ k) (sort (map (\<lambda>kv. str_val (fst kv)) ?G))"
    by simp
  then have "headings ?L = [''### acme/app'', ''### zeta/app'']" by simp
  with g l show ?thesis by simp
qed

section \<open>Classifiers on well-shaped items\<close>

lemma py_get_obj:
  "is_obj v \<Longrightarrow> py_get v k d = Inr (case field v k of None \<Rightarrow> d | Some x \<Rightarrow> x)"
  by (cases v) (simp_all add: field_def)

lemma parse_date_text_or_null: "text_or_null v \<Longrightarrow> \<exists>d. parse_date f v = Inr d"
  by (cases v) (simp_all add: parse_date_def)

lemma get_first_line_text_or_null: "text_or_null v \<Longrightarrow> \<exists>m. get_first_line v = Inr m"
  by (cases v) (simp_all add: get_first_line_def Let_def)

lemma absent_or_default:
  assumes "absent_or P (field v k)" and "P d"
  shows "P (case field v k of None \<Rightarrow> d | Some x \<Rightarrow> x)"
  using assms by (cases "field v k") (simp_all add: absent_or_def)

lemma field_empty [simp]: "field (JObj []) k = None"
  by (simp add: field_def)

lemma absent_or_None [simp]: "absent_or P None"
  by (simp add: absent_or_def)

lemma repo_name_shaped:
  assumes "is_obj item" and "repository_shaped item"
  shows "\<exists>repository. py_get item ''repository'' (JObj []) = Inr repository \<and> is_obj repository
      \<and> (\<exists>n. py_get repository ''name'' (JStr ''unknown'') = Inr n \<and> is_str n
            \<and> (\<exists>w. py_get repository ''nameWithOwner'' n = Inr w \<and> is_str w))"
proof (cases "field item ''repository''")
  case None
  with assms(1) have "py_get item ''repository'' (JObj []) = Inr (JObj [])"
    by (simp add: py_get_obj)
  then show ?thesis by simp
next
  case (Some r)
  with assms(2) have r: "is_obj r" "absent_or is_str (field r ''name'')"
    "absent_or is_str (field r ''nameWithOwner'')"
    by (simp_all add: repository_shaped_def absent_or_def)
  from Some assms(1) have g: "py_get item ''repository'' (JObj []) = Inr r"
    by (simp add: py_get_obj)
  let ?n = "case field r ''name'' of None \<Rightarrow> JStr ''unknown'' | Some x \<Rightarrow> x"
  have n: "py_get r ''name'' (JStr ''unknown'') = Inr ?n" using r(1) by (simp add: py_get_obj)
  have ns: "is_str ?n" using absent_or_default [OF r(2), of "JStr ''unknown''"] by simp
  let ?w = "case field r ''nameWithOwner'' of None \<Rightarrow> ?n | Some x \<Rightarrow> x"
  have w: "py_get r ''nameWithOwner'' ?n = Inr ?w" using r(1) by (simp add: py_get_obj)
  have ws: "is_str ?w" using absent_or_default [OF r(3) ns] by simp
  from g r(1) n ns w ws show ?thesis by blast
qed

lemma hashable_string: "is_str k \<Longrightarrow> hashable k"
  by (cases k) simp_all

lemma commit_entry_shaped:
  assumes "commit_shaped item"
  shows "\<exists>repo r. commit_entry f item = Inr (repo, r)"
proof -
  from assms have obj: "is_obj item" and rs: "repository_shaped item"
    and cs: "absent_or (\<lambda>c. is_obj c \<and> absent_or text_or_null (field c ''message'')
                      \<and> absent_or (\<lambda>a. is_obj a \<and> absent_or text_or_null (field a ''date''))
                            (field c ''author''))
         (field item ''commit'')"
    by (simp_all add: commit_shaped_def)
  from repo_name_shaped [OF obj rs] obtain repository n
    where a: "py_get item ''repository'' (JObj []) = Inr repository"
      and b: "py_get repository ''name'' (JStr ''unknown'') = Inr n" and hn: "hashable n"
    using hashable_string by blast
  let ?c = "case field item ''commit'' of None \<Rightarrow> JObj [] | Some x \<Rightarrow> x"
  have c: "py_get item ''commit'' (JObj []) = Inr ?c" using obj by (simp add: py_get_obj)
  from absent_or_default [OF cs, of "JObj []"]
  have co: "is_obj ?c" and cm: "absent_or text_or_null (field ?c ''message'')"
    and ca: "absent_or (\<lambda>a. is_obj a \<and> absent_or text_or_null (field a ''date'')) (field ?c ''author'')"
    by simp_all
  let ?a = "case field ?c ''author'' of None \<Rightarrow> JObj [] | Some x \<Rightarrow> x"
  have au: "py_get ?c ''author'' (JObj []) = Inr ?a" using co by (simp add: py_get_obj)
  from absent_or_default [OF ca, of "JObj []"]
  have ao: "is_obj ?a" and ad: "absent_or text_or_null (field ?a ''date'')"
    by simp_all
  let ?d = "case field ?a ''date'' of None \<Rightarrow> JNull | Some x \<Rightarrow> x"
  have d: "py_get ?a ''date'' JNull = Inr ?d" using ao by (simp add: py_get_obj)
  have "text_or_null ?d" using absent_or_default [OF ad, of JNull] by simp
  from parse_date_text_or_null [OF this] obtain dt where dt: "parse_date f ?d = Inr dt" by blast
  let ?m = "case field ?c ''message'' of None \<Rightarrow> JStr [] | Some x \<Rightarrow> x"
  have m: "py_get ?c ''message'' (JStr []) = Inr ?m" using co by (simp add: py_get_obj)
  have "text_or_null ?m" using absent_or_default [OF cm, of "JStr []"] by simp
  from get_first_line_text_or_null [OF this] obtain msg where msg: "get_first_line ?m = Inr msg"
    by blast
  have "commit_entry f item = Inr (n, \<lparr>date = dt, message = msg\<rparr>)"
    unfolding commit_entry_def a b c au d dt m msg and_then_Inr using hn by simp
  then show ?thesis by blast
qed

lemma state_of_shaped:
  assumes "is_obj item" and "absent_or is_str (field item ''state'')"
  shows "\<exists>st. state_of item = Inr st"
proof -
  let ?s = "case field item ''state'' of None \<Rightarrow> JStr [] | Some x \<Rightarrow> x"
  have s: "py_get item ''state'' (JStr []) = Inr ?s" using assms(1) by (simp add: py_get_obj)
  have "is_str ?s" using absent_or_default [OF assms(2), of "JStr []"] by simp
  then obtain raw where "?s = JStr raw" by (cases ?s) simp_all
  with s show ?thesis by (simp add: state_of_def)
qed

lemma issue_entry_shaped:
  assumes "issue_shaped item"
  shows "\<exists>repo r. issue_entry f item = Inr (repo, r)"
proof -
  from assms have obj: "is_obj item" and rs: "repository_shaped item"
    and cr: "absent_or text_or_null (field item ''createdAt'')"
    and st: "absent_or is_str (field item ''state'')"
    by (simp_all add: issue_shaped_def)
  from repo_name_shaped [OF obj rs] obtain w where w: "repo_of item = Inr w" and hw: "hashable w"
    using hashable_string by (auto simp: repo_of_def)
  let ?d = "case field item ''createdAt'' of None \<Rightarrow> JNull | Some x \<Rightarrow> x"
  have d: "py_get item ''createdAt'' JNull = Inr ?d" using obj by (simp add: py_get_obj)
  have "text_or_null ?d" using absent_or_default [OF cr, of JNull] by simp
  from parse_date_text_or_null [OF this] obtain dt where dt: "parse_date f ?d = Inr dt" by blast
  from state_of_shaped [OF obj st] obtain s where s: "state_of item = Inr s" by blast
  have g: "\<exists>v. py_get item k dflt = Inr v" for k dflt using obj by (simp add: py_get_obj)
  from g [of "''title''" "JStr []"] obtain t where t: "py_get item ''title'' (JStr []) = Inr t" by blast
  from g [of "''url''" "JStr []"] obtain u where u: "py_get item ''url'' (JStr []) = Inr u" by blast
  from g [of "''body''" "JStr []"] obtain b where b: "py_get item ''body'' (JStr []) = Inr b" by blast
  have "issue_entry f item = Inr (w, \<lparr>date = dt, title = t, state = s, url = u, body = b\<rparr>)"
    unfolding issue_entry_def w d dt t s u b and_then_Inr using hw by simp
  then show ?thesis by blast
qed

lemma pr_entry_shaped:
  assumes "issue_shaped item"
  shows "\<exists>repo r. pr_entry f item = Inr (repo, r)"
proof -
  from assms have obj: "is_obj item" and rs: "repository_shaped item"
    and cr: "absent_or text_or_null (field item ''createdAt'')"
    and st: "absent_or is_str (field item ''state'')"
    by (simp_all add: issue_shaped_def)
  from repo_name_shaped [OF obj rs] obtain w where w: "repo_of item = Inr w" and hw: "hashable w"
    using hashable_string by (auto simp: repo_of_def)
  let ?d = "case field item ''createdAt'' of None \<Rightarrow> JNull | Some x \<Rightarrow> x"
  have d: "py_get item ''createdAt'' JNull = Inr ?d" using obj by (simp add: py_get_obj)
  have "text_or_null ?d" using absent_or_default [OF cr, of JNull] by simp
  from parse_date_text_or_null [OF this] obtain dt where dt: "parse_date f ?d = Inr dt" by blast
  from state_of_shaped [OF obj st] obtain s where s: "state_of item = Inr s" by blast
  have g: "\<exists>v. py_get item k dflt = Inr v" for k dflt using obj by (simp add: py_get_obj)
  from g [of "''title''" "JStr []"] obtain t where t: "py_get item ''title'' (JStr []) = Inr t" by blast
  from g [of "''url''" "JStr []"] obtain u where u: "py_get item ''url'' (JStr []) = Inr u" by blast
  from g [of "''body''" "JStr []"] obtain b where b: "py_get item ''body'' (JStr []) = Inr b" by blast
  have "pr_entry f item = Inr (w, \<lparr>date = dt, title = t, state = s, url = u, body = b,
      merged = (s = ''merged'')\<rparr>)"
    unfolding pr_entry_def w d dt t s u b and_then_Inr using hw by simp
  then show ?thesis by blast
qed

lemma group_items_total:
  assumes "\<forall>x\<in>set items. \<exists>repo r. entry x = Inr (repo, r)"
  shows "\<exists>g. group_items entry items g0 = Inr g"
  using assms
proof (induction items arbitrary: g0)
  case Nil
  show ?case by simp
next
  case (Cons x xs)
  from Cons.prems obtain repo r where e: "entry x = Inr (repo, r)" by auto
  from Cons.prems have "\<forall>y\<in>set xs. \<exists>repo r. entry y = Inr (repo, r)" by simp
  from Cons.IH [OF this, of "dict_append repo r g0"] e show ?case by simp
qed

lemma records_dict_append:
  "set (concat (map snd (dict_append k r g))) = insert r (set (concat (map snd g)))"
proof (induction g)
  case Nil
  show ?case by simp
next
  case (Cons a g)
  obtain k' rs where a: "a = (k', rs)" by (cases a)
  show ?case
  proof (cases "key_eq k k'")
    case True
    with a show ?thesis by auto
  next
    case False
    with a Cons show ?thesis by auto
  qed
qed

lemma records_group_items:
  assumes "group_items entry items g0 = Inr g"
  shows "set (concat (map snd g))
      \<subseteq> set (concat (map snd g0)) \<union> {r. \<exists>x\<in>set items. \<exists>repo. entry x = Inr (repo, r)}"
  using assms
proof (induction items arbitrary: g0)
  case Nil
  then show ?case by simp
next
  case (Cons x xs)
  from Cons.prems [unfolded group_items.simps]
  obtain kr where kr: "entry x = Inr kr"
    and rest: "(case kr of (repo, r) \<Rightarrow> group_items entry xs (dict_append repo r g0)) = Inr g"
    by (rule and_then_InrE)
  obtain k r where krv: "kr = (k, r)" by (cases kr)
  with rest have rest': "group_items entry xs (dict_append k r g0) = Inr g" by simp
  from Cons.IH [OF rest'] kr krv show ?case
    unfolding records_dict_append by auto
qed

lemma comparable_uniform:
  assumes "\<forall>d\<in>set ds. aware d = b"
  shows "comparable ds"
proof (cases ds)
  case Nil
  then show ?thesis by (simp add: comparable_def)
next
  case (Cons d ds')
  with assms have "aware (hd ds) = b" by simp
  with assms show ?thesis by (simp add: comparable_def list_all_iff)
qed

lemma aware_datetime_min [simp]: "\<not> aware datetime_min"
  by (simp add: aware_def datetime_min_def)

lemma sortable_comparable:
  assumes "dates_sortable ds" and "\<forall>r\<in>set rs. date r \<in> set ds"
  shows "comparable (map sort_key_of rs)"
proof -
  from assms(1) consider
    (naive) "list_all (\<lambda>d. case d of None \<Rightarrow> True | Some x \<Rightarrow> \<not> aware x) ds"
    | (aware) "list_all (\<lambda>d. case d of None \<Rightarrow> False | Some x \<Rightarrow> aware x) ds"
    by (auto simp: dates_sortable_def)
  then show ?thesis
  proof cases
    case naive
    have "aware (sort_key_of r) = False" if "r \<in> set rs" for r
    proof -
      from that assms(2) have "date r \<in> set ds" by simp
      with naive have "case date r of None \<Rightarrow> True | Some x \<Rightarrow> \<not> aware x"
        by (simp add: list_all_iff)
      then show ?thesis by (cases "date r") (simp_all add: sort_key_of_def)
    qed
    then have "\<forall>d\<in>set (map sort_key_of rs). aware d = False" by auto
    then show ?thesis by (rule comparable_uniform)
  next
    case aware
    have "aware (sort_key_of r) = True" if "r \<in> set rs" for r
    proof -
      from that assms(2) have "date r \<in> set ds" by simp
      with aware have "case date r of None \<Rightarrow> False | Some x \<Rightarrow> aware x"
        by (simp add: list_all_iff)
      then show ?thesis by (cases "date r") (simp_all add: sort_key_of_def)
    qed
    then have "\<forall>d\<in>set (map sort_key_of rs). aware d = True" by auto
    then show ?thesis by (rule comparable_uniform)
  qed
qed

lemma sort_groups_total:
  assumes "\<forall>kv\<in>set g. comparable (map sort_key_of (snd kv))"
  shows "\<exists>g'. sort_groups g = Inr g'"
  using assms
proof (induction g)
  case Nil
  show ?case by simp
next
  case (Cons a g)
  obtain repo items where a: "a = (repo, items)" by (cases a)
  from Cons.prems a have c: "comparable (map sort_key_of items)" by simp
  from Cons.prems have "\<forall>kv\<in>set g. comparable (map sort_key_of (snd kv))" by simp
  from Cons.IH [OF this] obtain g' where "sort_groups g = Inr g'" by blast
  with a c show ?case by (simp add: sort_newest_first_def)
qed

lemma classifier_total:
  assumes ok: "\<forall>x\<in>set items. \<exists>repo r. entry x = Inr (repo, r)"
    and sortable: "dates_sortable (map (\<lambda>x. entry_date (entry x)) items)"
  shows "\<exists>grouped. and_then (group_items entry items []) sort_groups = Inr grouped"
proof -
  from group_items_total [OF ok, of "[]"] obtain g where g: "group_items entry items [] = Inr g"
    by blast
  have "comparable (map sort_key_of (snd kv))" if "kv \<in> set g" for kv
  proof (rule sortable_comparable [OF sortable], rule ballI)
    fix r
    assume "r \<in> set (snd kv)"
    with that have "r \<in> set (concat (map snd g))" by auto
    with records_group_items [OF g] obtain x repo
      where x: "x \<in> set items" and e: "entry x = Inr (repo, r)" by auto
    from e have "date r = entry_date (entry x)" by (simp add: entry_date_def)
    with x show "date r \<in> set (map (\<lambda>x. entry_date (entry x)) items)" by auto
  qed
  then have "\<forall>kv\<in>set g. comparable (map sort_key_of (snd kv))" by blast
  from sort_groups_total [OF this] g show ?thesis by simp
qed

text \<open>
  When its sort returns, a group is in descending order of the sort keys and holds the
  records it held before.
\<close>

lemma sort_newest_first_descending:
  assumes "sort_newest_first items = Inr sorted_items"
  shows "sorted (rev (map (\<lambda>x. instant (sort_key_of x)) sorted_items))
       \<and> mset sorted_items = mset items"
proof -
  from assms have s: "sorted_items = rev (sort_key (\<lambda>x. instant (sort_key_of x)) (rev items))"
    by (simp add: sort_newest_first_def split: if_splits)
  have "rev (map (\<lambda>x. instant (sort_key_of x)) sorted_items)
      = map (\<lambda>x. instant (sort_key_of x)) (sort_key (\<lambda>x. instant (sort_key_of x)) (rev items))"
    unfolding s by (simp add: rev_map)
  then have "sorted (rev (map (\<lambda>x. instant (sort_key_of x)) sorted_items))"
    by (simp only: sorted_sort_key)
  moreover have "mset sorted_items = mset items" unfolding s by simp
  ultimately show ?thesis by simp
qed

text \<open>
  C1, as the source has it. On a list of well-shaped items each of the three classifiers
  returns its groups, without raising, when the dates of the list can be ordered by one
  sort (none offset-aware, or all present and offset-aware): missing keys, \<^verbatim>\<open>null\<close>
  dates and messages, and date strings that do not parse are all taken with their
  defaults.
\<close>

theorem classifiers_complete_on_shaped_items:
  assumes "list_all commit_shaped commits_data"
    and "dates_sortable (map (\<lambda>x. entry_date (commit_entry fromisoformat x)) commits_data)"
    and "list_all issue_shaped issues_data"
    and "dates_sortable (map (\<lambda>x. entry_date (issue_entry fromisoformat x)) issues_data)"
    and "list_all issue_shaped prs_data"
    and "dates_sortable (map (\<lambda>x. entry_date (pr_entry fromisoformat x)) prs_data)"
  shows "(\<exists>grouped. process_commits fromisoformat (JArr commits_data) = Inr grouped)
       \<and> (\<exists>grouped. process_issues fromisoformat (JArr issues_data) = Inr grouped)
       \<and> (\<exists>grouped. process_prs fromisoformat (JArr prs_data) = Inr grouped)"
proof -
  from assms(1) have "\<forall>x\<in>set commits_data. \<exists>repo r. commit_entry fromisoformat x = Inr (repo, r)"
    by (simp add: list_all_iff commit_entry_shaped)
  from classifier_total [OF this assms(2)]
  have c: "\<exists>grouped. process_commits fromisoformat (JArr commits_data) = Inr grouped"
    by (simp add: process_commits_def)
  from assms(3) have "\<forall>x\<in>set issues_data. \<exists>repo r. issue_entry fromisoformat x = Inr (repo, r)"
    by (simp add: list_all_iff issue_entry_shaped)
  from classifier_total [OF this assms(4)]
  have i: "\<exists>grouped. process_issues fromisoformat (JArr issues_data) = Inr grouped"
    by (simp add: process_issues_def)
  from assms(5) have "\<forall>x\<in>set prs_data. \<exists>repo r. pr_entry fromisoformat x = Inr (repo, r)"
    by (simp add: list_all_iff pr_entry_shaped)
  from classifier_total [OF this assms(6)]
  have p: "\<exists>grouped. process_prs fromisoformat (JArr prs_data) = Inr grouped"
    by (simp add: process_prs_def)
  from c i p show ?thesis by blast
qed

lemma parse_unparseable_example: "fromisoformat_plain ''yesterday'' = None"
  by (simp add: parser_defs)

theorem classifiers_complete_on_shaped_items_witness:
  "list_all commit_shaped
     [JObj [], JObj [(''repository'', JObj []),
                     (''commit'', JObj [(''author'', JObj [(''date'', JStr ''yesterday'')])])]]
   \<and> dates_sortable (map (\<lambda>x. entry_date (commit_entry fromisoformat_plain x))
     [JObj [], JObj [(''repository'', JObj []),
                     (''commit'', JObj [(''author'', JObj [(''date'', JStr ''yesterday'')])])]])
   \<and> list_all issue_shaped
     [JObj [(''title'', JStr ''Crash on start''), (''createdAt'', JStr ''2025-11-20T10:00:00Z'')]]
   \<and> dates_sortable (map (\<lambda>x. entry_date (issue_entry fromisoformat_plain x))
     [JObj [(''title'', JStr ''Crash on start''), (''createdAt'', JStr ''2025-11-20T10:00:00Z'')]])
   \<and> list_all issue_shaped [JObj [(''createdAt'', JNull)]]
   \<and> dates_sortable (map (\<lambda>x. entry_date (pr_entry fromisoformat_plain x))
     [JObj [(''createdAt'', JNull)]])
   \<and> (\<exists>grouped. process_commits fromisoformat_plain
         (JArr [JObj [], JObj [(''repository'', JObj []),
                     (''commit'', JObj [(''author'', JObj [(''date'', JStr ''yesterday'')])])]])
        = Inr grouped)
   \<and> (\<exists>grouped. process_issues fromisoformat_plain
         (JArr [JObj [(''title'', JStr ''Crash on start''),
                      (''createdAt'', JStr ''2025-11-20T10:00:00Z'')]])
        = Inr grouped)
   \<and> (\<exists>grouped. process_prs fromisoformat_plain (JArr [JObj [(''createdAt'', JNull)]])
        = Inr grouped)"
proof -
  let ?cs = "[JObj [], JObj [(''repository'', JObj []),
                     (''commit'', JObj [(''author'', JObj [(''date'', JStr ''yesterday'')])])]]"
  let ?is = "[JObj [(''title'', JStr ''Crash on start''),
                    (''createdAt'', JStr ''2025-11-20T10:00:00Z'')]]"
  let ?ps = "[JObj [(''createdAt'', JNull)]]"
  have c1: "list_all commit_shaped ?cs"
    by (simp add: commit_shaped_def repository_shaped_def absent_or_def field_def)
  have c2: "dates_sortable (map (\<lambda>x. entry_date (commit_entry fromisoformat_plain x)) ?cs)"
    by (simp add: dates_sortable_def entry_date_def commit_entry_def parse_date_def
        get_first_line_def replace_char_def parse_unparseable_example)
  have i1: "list_all issue_shaped ?is"
    by (simp add: issue_shaped_def repository_shaped_def absent_or_def field_def)
  have i2: "dates_sortable (map (\<lambda>x. entry_date (issue_entry fromisoformat_plain x)) ?is)"
    by (simp add: dates_sortable_def entry_date_def issue_entry_def repo_of_def state_of_def
        parse_date_def replace_char_def parse_utc_example lower_defs aware_def)
  have p1: "list_all issue_shaped ?ps"
    by (simp add: issue_shaped_def repository_shaped_def absent_or_def field_def)
  have p2: "dates_sortable (map (\<lambda>x. entry_date (pr_entry fromisoformat_plain x)) ?ps)"
    by (simp add: dates_sortable_def entry_date_def pr_entry_def repo_of_def state_of_def
        parse_date_def lower_defs)
  from classifiers_complete_on_shaped_items [OF c1 c2 i1 i2 p1 p2] c1 c2 i1 i2 p1 p2
  show ?thesis by blast
qed

end
